theory Spec2Isabelle
  imports Complex_Main "HOL-Library.AList"
begin

section \<open>Data grid: rows meta, columns export and the detail-panel toggle column\<close>

text \<open>
  A shallow embedding of three hooks of the data grid:
  \<^item> \<open>useGridRowsMeta\<close>: the row-height cache, the positions of the rows of the current
    page and the watermark of the measured rows;
  \<^item> the \<open>exportState\<close> processor of \<open>useGridColumns\<close>;
  \<^item> the \<open>hydrateColumns\<close> processor of \<open>useGridDetailPanelPreProcessors\<close>.

  Conventions. A JavaScript number that stands for a pixel size is an \<open>int\<close> (exact
  arithmetic; rounding of floating point numbers is outside the model). A plain object
  used as a dictionary with string keys is an association list in insertion order:
  writing a property is \<open>AList.update\<close> (in place when the key exists, at the end
  otherwise), \<open>Object.entries\<close> is the list itself and reading a property is
  \<open>map_of\<close>, whose \<open>None\<close> is \<open>undefined\<close>. The objects of the program have
  distinct keys. The refs of a hook (\<open>React.useRef\<close>) and the part of the grid state it
  writes are the fields of one record that every operation takes and returns; what a
  hook closes over (props and selected state) is a record of its own. A user callback
  is a total function of its arguments.
\<close>

subsection \<open>Numbers with infinity\<close>

datatype jsnumber = Finite int | Infinity

text \<open>The comparison \<open>a > b\<close> of the language on these numbers.\<close>

fun js_gt :: "jsnumber \<Rightarrow> jsnumber \<Rightarrow> bool" where
  "js_gt (Finite a) (Finite b) = (a > b)"
| "js_gt Infinity (Finite b) = True"
| "js_gt a Infinity = False"

definition js_le :: "jsnumber \<Rightarrow> jsnumber \<Rightarrow> bool" where
  "js_le a b = (\<not> js_gt a b)"

subsection \<open>Rows, the height cache and what the hook closes over\<close>

text \<open>
  A row id is the property key under which the cache stores the row. \<open>rowId\<close> is the
  field \<open>id\<close> of \<open>GridRowEntry\<close>.
\<close>

type_synonym GridRowId = nat

record GridRowEntry =
  rowId :: GridRowId
  model :: string

text \<open>\<open>{ ...row, densityFactor }\<close>\<close>

record GridRowHeightParams = GridRowEntry +
  densityFactor :: rat

text \<open>\<open>{ ...row, isFirstVisible, isLastVisible, indexRelativeToCurrentPage }\<close>\<close>

record GridRowSpacingParams = GridRowEntry +
  isFirstVisible :: bool
  isLastVisible :: bool
  indexRelativeToCurrentPage :: int

text \<open>\<open>GridRowSpacing\<close>: the fields \<open>top\<close> and \<open>bottom\<close>, both optional.\<close>

record GridRowSpacing =
  topSpacing :: "int option"
  bottomSpacing :: "int option"

text \<open>What \<open>getRowHeight\<close> may return: a number, \<open>'auto'\<close>, or \<open>null\<close>/\<open>undefined\<close>.\<close>

datatype GridRowHeightReturnValue = HeightAuto | HeightValue int | HeightNullish

type_synonym sizes = "(string \<times> int) list"

record rowHeightEntry =
  isResized :: bool
  sizes :: sizes
  autoHeight :: bool
  needsFirstMeasurement :: bool

record GridPinnedRows =
  topRows :: "GridRowEntry list option"
  bottomRows :: "GridRowEntry list option"

text \<open>
  The values \<open>hydrateRowsMeta\<close> closes over: the three props, the selected density row
  height and density factor, the rows of the current page, the pinned rows, the method
  \<open>getRowIndexRelativeToVisibleRows\<close> of the grid and the processors registered for
  \<open>rowHeight\<close>, in registration order.
\<close>

record RowsMetaEnv =
  getRowHeightProp :: "(GridRowHeightParams \<Rightarrow> GridRowHeightReturnValue) option"
  getEstimatedRowHeight :: "(GridRowHeightParams \<Rightarrow> int option) option"
  getRowSpacing :: "(GridRowSpacingParams \<Rightarrow> GridRowSpacing) option"
  rowHeightFromDensity :: int
  gridDensityFactor :: rat
  currentPageRows :: "GridRowEntry list"
  pinnedRows :: "GridPinnedRows option"
  getRowIndexRelativeToVisibleRows :: "GridRowId \<Rightarrow> int"
  rowHeightProcessors :: "(sizes \<Rightarrow> GridRowEntry \<Rightarrow> sizes) list"

record GridRowsMetaState =
  currentPageTotalHeight :: int
  positions :: "int list"

text \<open>
  The refs of the hook and \<open>state.rowsMeta\<close>. \<open>debouncedHydrateCalls\<close> counts the calls
  of \<open>debouncedHydrateRowsMeta\<close>: each call schedules the recomputation (again).
\<close>

record RowsMetaRefs =
  rowsHeightLookup :: "GridRowId \<rightharpoonup> rowHeightEntry"
  lastMeasuredRowIndex :: jsnumber
  hasRowWithAutoHeight :: bool
  rowsMeta :: GridRowsMetaState
  debouncedHydrateCalls :: nat

text \<open>\<open>rowsMetaStateInitializer\<close> and the initial values of the refs.\<close>

definition rowsMetaStateInitializer :: RowsMetaRefs where
  "rowsMetaStateInitializer =
     \<lparr>rowsHeightLookup = Map.empty, lastMeasuredRowIndex = Finite (- 1),
      hasRowWithAutoHeight = False,
      rowsMeta = \<lparr>currentPageTotalHeight = 0, positions = []\<rparr>,
      debouncedHydrateCalls = 0\<rparr>"

subsection \<open>Keys of the size components\<close>

text \<open>The test \<open>/^base[A-Z]/\<close>.\<close>

definition isUpperAZ :: "char \<Rightarrow> bool" where
  "isUpperAZ c = (65 \<le> (of_char c :: nat) \<and> (of_char c :: nat) \<le> 90)"

fun isBaseKey :: "string \<Rightarrow> bool" where
  "isBaseKey (c1 # c2 # c3 # c4 # c5 # rest) =
     (c1 = CHR ''b'' \<and> c2 = CHR ''a'' \<and> c3 = CHR ''s'' \<and> c4 = CHR ''e'' \<and> isUpperAZ c5)"
| "isBaseKey _ = False"

text \<open>
  \<open>capitalize\<close> of the UI library: the first character in upper case, the rest as it
  is (ASCII letters: a lower-case letter loses the bit of value 32).
\<close>

definition toUpperChar :: "char \<Rightarrow> char" where
  "toUpperChar c =
     (if 97 \<le> (of_char c :: nat) \<and> (of_char c :: nat) \<le> 122
      then (case c of Char b0 b1 b2 b3 b4 b5 b6 b7 \<Rightarrow> Char b0 b1 b2 b3 b4 False b6 b7)
      else c)"

fun capitalize :: "string \<Rightarrow> string" where
  "capitalize [] = []"
| "capitalize (c # cs) = toUpperChar c # cs"

subsection \<open>The pipe of processors\<close>

text \<open>
  Modelled from the spec: \<open>applyPipeProcessors\<close> of the pipe-processing core, which is
  not among the sources. It folds the registered processors in registration order,
  each one receiving the output of the previous one and the context argument.
\<close>

definition applyPipeProcessors ::
  "('a \<Rightarrow> 'c \<Rightarrow> 'a) list \<Rightarrow> 'a \<Rightarrow> 'c \<Rightarrow> 'a" where
  "applyPipeProcessors ps initialValue ctx = fold (\<lambda>p acc. p acc ctx) ps initialValue"

subsection \<open>hydrateRowsMeta\<close>

text \<open>
  The base height of a row is a number or \<open>undefined\<close> (when the cached sizes have no
  \<open>baseCenter\<close>). A property that holds \<open>undefined\<close> is an absent key of the
  association list: the hook only compares such a property or copies it.
\<close>

definition setBaseCenter :: "int option \<Rightarrow> sizes \<Rightarrow> sizes" where
  "setBaseCenter baseRowHeight szs =
     (case baseRowHeight of
        Some h \<Rightarrow> AList.update ''baseCenter'' h szs
      | None \<Rightarrow> AList.delete ''baseCenter'' szs)"

definition newRowHeightEntry :: "RowsMetaEnv \<Rightarrow> rowHeightEntry" where
  "newRowHeightEntry e =
     \<lparr>isResized = False, sizes = [(''baseCenter'', rowHeightFromDensity e)],
      autoHeight = False, needsFirstMeasurement = True\<rparr>"

definition heightParams :: "RowsMetaEnv \<Rightarrow> GridRowEntry \<Rightarrow> GridRowHeightParams" where
  "heightParams e row =
     \<lparr>rowId = rowId row, model = model row, densityFactor = gridDensityFactor e\<rparr>"

text \<open>
  \<open>calculateRowProcessedSizes\<close>, in three parts. The first is the choice of the base
  height (the \<open>if (isResized) ... else if (getRowHeightProp) ... else ...\<close> of the
  source): it yields \<open>baseRowHeight\<close>, the entry with the flags the branch has written
  and the value of \<open>hasRowWithAutoHeight\<close>.
\<close>

definition chooseBaseRowHeight ::
  "RowsMetaEnv \<Rightarrow> GridRowEntry \<Rightarrow> rowHeightEntry \<Rightarrow> bool
     \<Rightarrow> int option \<times> rowHeightEntry \<times> bool" where
  "chooseBaseRowHeight e row entry0 hasAuto0 =
     (let existingBaseRowHeight = map_of (sizes entry0) ''baseCenter''
      in if isResized entry0 then
           (existingBaseRowHeight, entry0, hasAuto0)
         else
           (case getRowHeightProp e of
              Some getRowHeightFn \<Rightarrow>
                (case getRowHeightFn (heightParams e row) of
                   HeightAuto \<Rightarrow>
                     ((if needsFirstMeasurement entry0 then
                         (case getEstimatedRowHeight e of
                            Some estimate \<Rightarrow>
                              (case estimate (heightParams e row) of
                                 Some h \<Rightarrow> Some h
                               | None \<Rightarrow> Some (rowHeightFromDensity e))
                          | None \<Rightarrow> Some (rowHeightFromDensity e))
                       else existingBaseRowHeight),
                      entry0\<lparr>autoHeight := True\<rparr>, True)
                 | HeightValue h \<Rightarrow>
                     (Some h,
                      entry0\<lparr>needsFirstMeasurement := False, autoHeight := False\<rparr>,
                      hasAuto0)
                 | HeightNullish \<Rightarrow>
                     (Some (rowHeightFromDensity e),
                      entry0\<lparr>needsFirstMeasurement := False, autoHeight := False\<rparr>,
                      hasAuto0))
            | None \<Rightarrow>
                (Some (rowHeightFromDensity e),
                 entry0\<lparr>needsFirstMeasurement := False\<rparr>,
                 hasAuto0)))"

text \<open>
  The second part builds \<open>initialHeights\<close>: the \<open>base*\<close> components of the cached
  sizes, \<open>baseCenter\<close> set to the base height, and the spacing when \<open>getRowSpacing\<close>
  is given.
\<close>

definition buildInitialHeights ::
  "RowsMetaEnv \<Rightarrow> GridRowEntry \<Rightarrow> sizes \<Rightarrow> int option \<Rightarrow> sizes" where
  "buildInitialHeights e row cachedSizes baseRowHeight =
     (let existingBaseSizes = filter (\<lambda>(key, val). isBaseKey key) cachedSizes;
          initialHeights = setBaseCenter baseRowHeight existingBaseSizes
      in case getRowSpacing e of
           None \<Rightarrow> initialHeights
         | Some getRowSpacingFn \<Rightarrow>
             (let indexRelative = getRowIndexRelativeToVisibleRows e (rowId row);
                  spacing = getRowSpacingFn
                    \<lparr>rowId = rowId row, model = model row,
                     isFirstVisible = (indexRelative = 0),
                     isLastVisible = (indexRelative = int (length (currentPageRows e)) - 1),
                     indexRelativeToCurrentPage = indexRelative\<rparr>
              in AList.update ''spacingBottom''
                   (case bottomSpacing spacing of Some b \<Rightarrow> b | None \<Rightarrow> 0)
                   (AList.update ''spacingTop''
                      (case topSpacing spacing of Some t \<Rightarrow> t | None \<Rightarrow> 0)
                      initialHeights)))"

text \<open>
  The whole function: the entry is created when the cache has none, the processors of
  \<open>rowHeight\<close> run on \<open>initialHeights\<close> and their result replaces the cached sizes.
\<close>

definition calculateRowProcessedSizes ::
  "RowsMetaEnv \<Rightarrow> GridRowEntry \<Rightarrow> RowsMetaRefs \<Rightarrow> sizes \<times> RowsMetaRefs" where
  "calculateRowProcessedSizes e row s =
     (let entry0 = (case rowsHeightLookup s (rowId row) of
                      None \<Rightarrow> newRowHeightEntry e
                    | Some en \<Rightarrow> en)
      in case chooseBaseRowHeight e row entry0 (hasRowWithAutoHeight s) of
           (baseRowHeight, entry1, hasAuto) \<Rightarrow>
             (let initialHeights = buildInitialHeights e row (sizes entry0) baseRowHeight;
                  processedSizes =
                    applyPipeProcessors (rowHeightProcessors e) initialHeights row
              in (processedSizes,
                  s\<lparr>rowsHeightLookup :=
                       (rowsHeightLookup s)(rowId row \<mapsto> entry1\<lparr>sizes := processedSizes\<rparr>),
                    hasRowWithAutoHeight := hasAuto\<rparr>)))"

text \<open>
  The loop over \<open>Object.entries(processedSizes)\<close>: the pair is
  \<open>(maximumBaseSize, otherSizes)\<close>, both starting at 0.
\<close>

definition sizeStep :: "int \<times> int \<Rightarrow> string \<times> int \<Rightarrow> int \<times> int" where
  "sizeStep acc entry =
     (case acc of (maximumBaseSize, otherSizes) \<Rightarrow>
        (case entry of (name, val) \<Rightarrow>
           if isBaseKey name
           then ((if val > maximumBaseSize then val else maximumBaseSize), otherSizes)
           else (maximumBaseSize, otherSizes + val)))"

definition rowTotalHeight :: "sizes \<Rightarrow> int" where
  "rowTotalHeight processedSizes =
     (case foldl sizeStep (0, 0) processedSizes of
        (maximumBaseSize, otherSizes) \<Rightarrow> maximumBaseSize + otherSizes)"

text \<open>
  The callback of \<open>currentPage.rows.reduce\<close>; the accumulator of the model carries
  \<open>acc\<close>, the array \<open>positions\<close> and the refs.
\<close>

definition reduceStep ::
  "RowsMetaEnv \<Rightarrow> int \<times> int list \<times> RowsMetaRefs \<Rightarrow> GridRowEntry
     \<Rightarrow> int \<times> int list \<times> RowsMetaRefs" where
  "reduceStep e st row =
     (case st of (acc, poss, s) \<Rightarrow>
        (case calculateRowProcessedSizes e row s of (processedSizes, s') \<Rightarrow>
           (acc + rowTotalHeight processedSizes, poss @ [acc], s')))"

definition forEachPinned ::
  "RowsMetaEnv \<Rightarrow> GridRowEntry list option \<Rightarrow> RowsMetaRefs \<Rightarrow> RowsMetaRefs" where
  "forEachPinned e rows s =
     (case rows of
        None \<Rightarrow> s
      | Some rs \<Rightarrow> foldl (\<lambda>s' row. snd (calculateRowProcessedSizes e row s')) s rs)"

text \<open>
  \<open>hydrateRowsMeta\<close>: the flag is reset, the rows of the page are reduced, the pinned
  rows are processed for their cache entries only, \<open>state.rowsMeta\<close> is replaced and
  the watermark is set to \<open>Infinity\<close> when no row has taken the \<open>'auto'\<close> branch.
  \<open>forceUpdate\<close> only triggers a render and has no counterpart here.
\<close>

definition hydrateRowsMeta :: "RowsMetaEnv \<Rightarrow> RowsMetaRefs \<Rightarrow> RowsMetaRefs" where
  "hydrateRowsMeta e s0 =
     (let s1 = s0\<lparr>hasRowWithAutoHeight := False\<rparr>;
          (total, poss, s2) = foldl (reduceStep e) (0, [], s1) (currentPageRows e);
          s3 = forEachPinned e (case pinnedRows e of None \<Rightarrow> None | Some p \<Rightarrow> topRows p) s2;
          s4 = forEachPinned e (case pinnedRows e of None \<Rightarrow> None | Some p \<Rightarrow> bottomRows p) s3;
          s5 = s4\<lparr>rowsMeta := \<lparr>currentPageTotalHeight = total, positions = poss\<rparr>\<rparr>
      in if \<not> hasRowWithAutoHeight s5
         then s5\<lparr>lastMeasuredRowIndex := Infinity\<rparr>
         else s5)"

subsection \<open>The methods of the rows-meta API\<close>

datatype error = TypeError

definition getRowHeight :: "RowsMetaEnv \<Rightarrow> RowsMetaRefs \<Rightarrow> GridRowId \<Rightarrow> int option" where
  "getRowHeight e s rid =
     (case rowsHeightLookup s rid of
        Some height \<Rightarrow> map_of (sizes height) ''baseCenter''
      | None \<Rightarrow> Some (rowHeightFromDensity e))"


text \<open>
  \<open>setRowHeight\<close> reads \<open>rowsHeightLookup.current[id].sizes\<close> without a check: for an id
  that the cache does not hold the read of \<open>.sizes\<close> on \<open>undefined\<close> throws a
  \<open>TypeError\<close>, before anything is written.
\<close>

definition setRowHeight ::
  "RowsMetaEnv \<Rightarrow> GridRowId \<Rightarrow> int \<Rightarrow> RowsMetaRefs \<Rightarrow> error + RowsMetaRefs" where
  "setRowHeight e rid height s =
     (case rowsHeightLookup s rid of
        None \<Rightarrow> Inl TypeError
      | Some en \<Rightarrow>
          Inr (hydrateRowsMeta e
                 (s\<lparr>rowsHeightLookup := (rowsHeightLookup s)(rid \<mapsto>
                       en\<lparr>sizes := AList.update ''baseCenter'' height (sizes en),
                          isResized := True,
                          needsFirstMeasurement := False\<rparr>)\<rparr>)))"

definition storeMeasuredRowHeight ::
  "GridRowId \<Rightarrow> int \<Rightarrow> string \<Rightarrow> RowsMetaRefs \<Rightarrow> RowsMetaRefs" where
  "storeMeasuredRowHeight rid height position s =
     (case rowsHeightLookup s rid of
        None \<Rightarrow> s
      | Some en \<Rightarrow>
          if \<not> autoHeight en then s
          else
            (let key = ''base'' @ capitalize position;
                 needsHydration = (map_of (sizes en) key \<noteq> Some height);
                 s' = s\<lparr>rowsHeightLookup := (rowsHeightLookup s)(rid \<mapsto>
                          en\<lparr>needsFirstMeasurement := False,
                             sizes := AList.update key height (sizes en)\<rparr>)\<rparr>
             in if needsHydration
                then s'\<lparr>debouncedHydrateCalls := Suc (debouncedHydrateCalls s')\<rparr>
                else s'))"


definition getLastMeasuredRowIndex :: "RowsMetaRefs \<Rightarrow> jsnumber" where
  "getLastMeasuredRowIndex s = lastMeasuredRowIndex s"

definition setLastMeasuredRowIndex :: "jsnumber \<Rightarrow> RowsMetaRefs \<Rightarrow> RowsMetaRefs" where
  "setLastMeasuredRowIndex index s =
     (if hasRowWithAutoHeight s \<and> js_gt index (lastMeasuredRowIndex s)
      then s\<lparr>lastMeasuredRowIndex := index\<rparr>
      else s)"

definition resetRowHeights :: "RowsMetaEnv \<Rightarrow> RowsMetaRefs \<Rightarrow> RowsMetaRefs" where
  "resetRowHeights e s = hydrateRowsMeta e (s\<lparr>rowsHeightLookup := Map.empty\<rparr>)"

subsection \<open>Columns: the processor of exportState\<close>

type_synonym GridColumnVisibilityModel = "(string \<times> bool) list"

text \<open>
  A column definition: its field, its header name, the flag \<open>hasBeenResized\<close> (absent
  is false) and, for a property name, the numeric value \<open>colDef[propertyName]\<close>
  (\<open>None\<close> is \<open>undefined\<close>).
\<close>

record GridColDef =
  field :: string
  headerName :: "string option"
  hasBeenResized :: bool
  dimensionValue :: "string \<Rightarrow> jsnumber option"

type_synonym GridColumnDimensions = "(string \<times> jsnumber option) list"

text \<open>\<open>GridColumnsInitialState\<close>: three optional properties.\<close>

record GridColumnsInitialState =
  initialColumnVisibilityModel :: "GridColumnVisibilityModel option"
  initialOrderedFields :: "string list option"
  initialDimensions :: "(string \<times> GridColumnDimensions) list option"

record GridInitialState =
  columns :: "GridColumnsInitialState option"

record GridStateExportContext =
  exportOnlyDirtyModels :: bool

text \<open>
  What the processor reads: the props \<open>columnVisibilityModel\<close> and \<open>initialState\<close>, the
  values of the selectors \<open>gridColumnVisibilityModelSelector\<close>,
  \<open>gridColumnFieldsSelector\<close> and \<open>gridColumnDefinitionsSelector\<close>, and the constant
  \<open>COLUMNS_DIMENSION_PROPERTIES\<close> (the selectors and the constant are declared in
  files that are not among the sources).
\<close>

record ColumnsExportEnv =
  columnVisibilityModelProp :: "GridColumnVisibilityModel option"
  initialStateProp :: "GridInitialState option"
  selectedColumnVisibilityModel :: GridColumnVisibilityModel
  selectedColumnFields :: "string list"
  selectedColumnDefinitions :: "GridColDef list"
  COLUMNS_DIMENSION_PROPERTIES :: "string list"

text \<open>\<open>props.initialState?.columns?.columnVisibilityModel ?? {}\<close>\<close>

definition initialVisibilityModelOrEmpty :: "ColumnsExportEnv \<Rightarrow> GridColumnVisibilityModel" where
  "initialVisibilityModelOrEmpty env =
     (case initialStateProp env of
        None \<Rightarrow> []
      | Some st \<Rightarrow>
          (case columns st of
             None \<Rightarrow> []
           | Some cols \<Rightarrow>
               (case initialColumnVisibilityModel cols of None \<Rightarrow> [] | Some m \<Rightarrow> m)))"

text \<open>The inner \<open>forEach\<close> over the dimension properties of one column.\<close>

definition exportColDefDimensions :: "string list \<Rightarrow> GridColDef \<Rightarrow> GridColumnDimensions" where
  "exportColDefDimensions properties colDef =
     foldl (\<lambda>colDefDimensions propertyName.
              (let propertyValue = dimensionValue colDef propertyName;
                   propertyValue' = (if propertyValue = Some Infinity
                                     then Some (Finite (- 1)) else propertyValue)
               in AList.update propertyName propertyValue' colDefDimensions))
       [] properties"

text \<open>The outer \<open>forEach\<close> over the columns.\<close>

definition exportDimensions ::
  "string list \<Rightarrow> GridColDef list \<Rightarrow> (string \<times> GridColumnDimensions) list" where
  "exportDimensions properties cols =
     foldl (\<lambda>dims colDef.
              if hasBeenResized colDef
              then AList.update (field colDef) (exportColDefDimensions properties colDef) dims
              else dims)
       [] cols"

definition shouldExportColumnVisibilityModel ::
  "ColumnsExportEnv \<Rightarrow> GridStateExportContext \<Rightarrow> bool" where
  "shouldExportColumnVisibilityModel env ctx =
     (\<not> exportOnlyDirtyModels ctx \<or>
      columnVisibilityModelProp env \<noteq> None \<or>
      length (initialVisibilityModelOrEmpty env) > 0 \<or>
      length (selectedColumnVisibilityModel env) > 0)"

definition stateExportPreProcessing ::
  "ColumnsExportEnv \<Rightarrow> GridInitialState \<Rightarrow> GridStateExportContext \<Rightarrow> GridInitialState" where
  "stateExportPreProcessing env prevState ctx =
     (let columnVisibilityModelToExport = selectedColumnVisibilityModel env;
          dims = exportDimensions (COLUMNS_DIMENSION_PROPERTIES env)
                   (selectedColumnDefinitions env);
          columnsStateToExport =
            \<lparr>initialColumnVisibilityModel =
               (if shouldExportColumnVisibilityModel env ctx
                then Some columnVisibilityModelToExport else None),
             initialOrderedFields = Some (selectedColumnFields env),
             initialDimensions = (if length dims > 0 then Some dims else None)\<rparr>
      in prevState\<lparr>columns := Some columnsStateToExport\<rparr>)"

subsection \<open>Detail panel: the processor of hydrateColumns\<close>

record GridColumnsState =
  orderedFields :: "string list"
  lookup :: "string \<rightharpoonup> GridColDef"
  columnVisibilityModel :: GridColumnVisibilityModel

text \<open>
  What \<open>addToggleColumn\<close> closes over: the prop \<open>getDetailPanelContent\<close> (its result
  stands for the rendered content), the constants of the toggle column (declared in a
  file that is not among the sources) and the text that
  \<open>getLocaleText('detailPanelToggle')\<close> returns.
\<close>

record DetailPanelEnv =
  getDetailPanelContent :: "(GridRowEntry \<Rightarrow> string) option"
  GRID_DETAIL_PANEL_TOGGLE_FIELD :: string
  GRID_DETAIL_PANEL_TOGGLE_COL_DEF :: GridColDef
  detailPanelToggleText :: string

definition addToggleColumn :: "DetailPanelEnv \<Rightarrow> GridColumnsState \<Rightarrow> GridColumnsState" where
  "addToggleColumn env columnsState =
     (let toggle = GRID_DETAIL_PANEL_TOGGLE_FIELD env
      in case getDetailPanelContent env of
           None \<Rightarrow>
             (if lookup columnsState toggle \<noteq> None
              then columnsState
                     \<lparr>lookup := (lookup columnsState)(toggle := None),
                      orderedFields :=
                        filter (\<lambda>fld. fld \<noteq> toggle) (orderedFields columnsState)\<rparr>
              else columnsState)
         | Some content \<Rightarrow>
             (if lookup columnsState toggle \<noteq> None then columnsState
              else columnsState
                     \<lparr>orderedFields := toggle # orderedFields columnsState,
                      lookup := (lookup columnsState)(toggle \<mapsto>
                        (GRID_DETAIL_PANEL_TOGGLE_COL_DEF env)
                          \<lparr>headerName := Some (detailPanelToggleText env)\<rparr>)\<rparr>))"

subsection \<open>Derived notions used to state the properties\<close>

text \<open>
  The sizes that a run computes for the rows of a list, one after the other, each on
  the refs the previous rows have left; \<open>pageProcessedSizes\<close> is this list for the rows
  of the current page in a run of \<open>hydrateRowsMeta\<close>, and \<open>processRows\<close> gives the refs
  after the rows of a list.
\<close>

fun processedSizesInRun :: "RowsMetaEnv \<Rightarrow> GridRowEntry list \<Rightarrow> RowsMetaRefs \<Rightarrow> sizes list" where
  "processedSizesInRun e [] s = []"
| "processedSizesInRun e (row # rows) s =
     (case calculateRowProcessedSizes e row s of
        (processedSizes, s') \<Rightarrow> processedSizes # processedSizesInRun e rows s')"

definition pageProcessedSizes :: "RowsMetaEnv \<Rightarrow> RowsMetaRefs \<Rightarrow> sizes list" where
  "pageProcessedSizes e s =
     processedSizesInRun e (currentPageRows e) (s\<lparr>hasRowWithAutoHeight := False\<rparr>)"

definition processRows :: "RowsMetaEnv \<Rightarrow> GridRowEntry list \<Rightarrow> RowsMetaRefs \<Rightarrow> RowsMetaRefs" where
  "processRows e rows s = foldl (\<lambda>s' row. snd (calculateRowProcessedSizes e row s')) s rows"

text \<open>All the rows that a run processes, in the order of processing.\<close>

definition pinnedTopRows :: "RowsMetaEnv \<Rightarrow> GridRowEntry list" where
  "pinnedTopRows e =
     (case pinnedRows e of None \<Rightarrow> [] | Some p \<Rightarrow> (case topRows p of None \<Rightarrow> [] | Some rs \<Rightarrow> rs))"

definition pinnedBottomRows :: "RowsMetaEnv \<Rightarrow> GridRowEntry list" where
  "pinnedBottomRows e =
     (case pinnedRows e of None \<Rightarrow> [] | Some p \<Rightarrow> (case bottomRows p of None \<Rightarrow> [] | Some rs \<Rightarrow> rs))"

definition hydratedRows :: "RowsMetaEnv \<Rightarrow> GridRowEntry list" where
  "hydratedRows e = currentPageRows e @ pinnedTopRows e @ pinnedBottomRows e"

text \<open>
  \<open>entryAfter\<close> is the cache entry that \<open>calculateRowProcessedSizes\<close> stores for a row,
  given the entry it finds (\<open>None\<close> when the cache has none), and \<open>rowIsAuto\<close> says
  that the row takes the \<open>'auto'\<close> branch: it is not resized and \<open>getRowHeight\<close>
  returns \<open>'auto'\<close> for it.
\<close>

definition cachedOrNew :: "RowsMetaEnv \<Rightarrow> rowHeightEntry option \<Rightarrow> rowHeightEntry" where
  "cachedOrNew e cached = (case cached of None \<Rightarrow> newRowHeightEntry e | Some en \<Rightarrow> en)"

definition entryAfter :: "RowsMetaEnv \<Rightarrow> GridRowEntry \<Rightarrow> rowHeightEntry option \<Rightarrow> rowHeightEntry" where
  "entryAfter e row cached =
     (case chooseBaseRowHeight e row (cachedOrNew e cached) False of
        (baseRowHeight, entry1, hasAuto) \<Rightarrow>
          entry1\<lparr>sizes := applyPipeProcessors (rowHeightProcessors e)
                    (buildInitialHeights e row (sizes (cachedOrNew e cached)) baseRowHeight) row\<rparr>)"

definition rowIsAuto :: "RowsMetaEnv \<Rightarrow> GridRowEntry \<Rightarrow> rowHeightEntry option \<Rightarrow> bool" where
  "rowIsAuto e row cached =
     (case getRowHeightProp e of
        None \<Rightarrow> False
      | Some getRowHeightFn \<Rightarrow>
          \<not> isResized (cachedOrNew e cached) \<and> getRowHeightFn (heightParams e row) = HeightAuto)"

text \<open>The positions that the reduce pushes for a list of row heights, from \<open>acc\<close> on.\<close>

fun prefixSums :: "int \<Rightarrow> int list \<Rightarrow> int list" where
  "prefixSums acc [] = []"
| "prefixSums acc (h # hs) = acc # prefixSums (acc + h) hs"

text \<open>
  The total height of a row in the words of the specification: the maximum of all
  \<open>base*\<close> components plus the sum of all other components (a row without a \<open>base*\<close>
  component has the maximum 0).
\<close>

definition baseValues :: "sizes \<Rightarrow> int list" where
  "baseValues szs = map snd (filter (\<lambda>(key, val). isBaseKey key) szs)"

definition otherValues :: "sizes \<Rightarrow> int list" where
  "otherValues szs = map snd (filter (\<lambda>(key, val). \<not> isBaseKey key) szs)"


text \<open>
  What a processor of \<open>rowHeight\<close> may be asked to respect: that it leaves
  \<open>baseCenter\<close> as it is, or that it leaves all the \<open>base*\<close> components as they are
  (as a processor does that only adds a component of its own).
\<close>

definition processorsKeepBaseCenter :: "RowsMetaEnv \<Rightarrow> bool" where
  "processorsKeepBaseCenter e =
     (\<forall>p\<in>set (rowHeightProcessors e). \<forall>szs row.
        map_of (p szs row) ''baseCenter'' = map_of szs ''baseCenter'')"

definition processorsKeepBaseSizes :: "RowsMetaEnv \<Rightarrow> bool" where
  "processorsKeepBaseSizes e =
     (\<forall>p\<in>set (rowHeightProcessors e). \<forall>szs row.
        filter (\<lambda>(key, val). isBaseKey key) (p szs row) =
        filter (\<lambda>(key, val). isBaseKey key) szs)"

text \<open>The cache holds the row as resized, with the base height \<open>h\<close>.\<close>

definition resizedAt :: "GridRowId \<Rightarrow> int \<Rightarrow> RowsMetaRefs \<Rightarrow> bool" where
  "resizedAt rid h s =
     (\<exists>en. rowsHeightLookup s rid = Some en \<and> isResized en \<and>
           map_of (sizes en) ''baseCenter'' = Some h)"

subsection \<open>Example inputs\<close>

definition exampleRow1 :: GridRowEntry where
  "exampleRow1 = \<lparr>rowId = 1, model = ''first''\<rparr>"

definition exampleRow2 :: GridRowEntry where
  "exampleRow2 = \<lparr>rowId = 2, model = ''second''\<rparr>"

text \<open>Two rows on the page, no callback, no processor, a density row height of 52.\<close>

definition plainEnv :: RowsMetaEnv where
  "plainEnv =
     \<lparr>getRowHeightProp = None, getEstimatedRowHeight = None, getRowSpacing = None,
      rowHeightFromDensity = 52, gridDensityFactor = 1,
      currentPageRows = [exampleRow1, exampleRow2], pinnedRows = None,
      getRowIndexRelativeToVisibleRows = (\<lambda>rid. int rid - 1),
      rowHeightProcessors = []\<rparr>"

text \<open>
  Row 1 is in auto-height mode with an estimate of 50, every other row has the height
  30.
\<close>

definition autoEnv :: RowsMetaEnv where
  "autoEnv =
     plainEnv
       \<lparr>getRowHeightProp :=
          Some (\<lambda>params. if rowId params = 1 then HeightAuto else HeightValue 30),
        getEstimatedRowHeight := Some (\<lambda>params. Some 50)\<rparr>"

text \<open>
  Moreover a spacing of 4 above every row but the first one, and a processor that adds
  a detail panel of 40 to row 2.
\<close>

definition spacedEnv :: RowsMetaEnv where
  "spacedEnv =
     autoEnv
       \<lparr>getRowSpacing :=
          Some (\<lambda>params. \<lparr>topSpacing = Some (if isFirstVisible params then 0 else 4),
                           bottomSpacing = None\<rparr>),
        rowHeightProcessors :=
          [\<lambda>szs row. if rowId row = 2 then AList.update ''detail'' 40 szs else szs]\<rparr>"

text \<open>
  A processor that overwrites \<open>baseCenter\<close>, and one that adds 60 to \<open>baseTop\<close> at each
  run.
\<close>

definition overridingEnv :: RowsMetaEnv where
  "overridingEnv =
     plainEnv\<lparr>rowHeightProcessors := [\<lambda>szs row. AList.update ''baseCenter'' 7 szs]\<rparr>"

definition growingEnv :: RowsMetaEnv where
  "growingEnv =
     plainEnv
       \<lparr>rowHeightProcessors :=
          [\<lambda>szs row. AList.update ''baseTop''
                        (case map_of szs ''baseTop'' of None \<Rightarrow> 60 | Some v \<Rightarrow> v + 60) szs]\<rparr>"

text \<open>
  A page that holds the id 1 twice: the height is \<open>'auto'\<close> for the model \<open>first\<close>,
  with an estimate of 50, and 30 for any other model.
\<close>

definition duplicateIdEnv :: RowsMetaEnv where
  "duplicateIdEnv =
     plainEnv
       \<lparr>getRowHeightProp :=
          Some (\<lambda>params. if model params = ''first'' then HeightAuto else HeightValue 30),
        getEstimatedRowHeight := Some (\<lambda>params. Some 50),
        currentPageRows := [exampleRow1, exampleRow1\<lparr>model := ''again''\<rparr>]\<rparr>"

text \<open>
  The refs after a first run on the plain environment, and refs whose cache holds row
  1 in auto-height mode, not measured yet, with an estimate of 50.
\<close>

definition cachedRefs :: RowsMetaRefs where
  "cachedRefs = hydrateRowsMeta plainEnv rowsMetaStateInitializer"

definition exampleAutoEntry :: rowHeightEntry where
  "exampleAutoEntry =
     \<lparr>isResized = False, sizes = [(''baseCenter'', 50)], autoHeight = True,
      needsFirstMeasurement = True\<rparr>"

definition exampleMeasuredRefs :: RowsMetaRefs where
  "exampleMeasuredRefs =
     rowsMetaStateInitializer
       \<lparr>rowsHeightLookup := [1 \<mapsto> exampleAutoEntry], hasRowWithAutoHeight := True\<rparr>"

text \<open>
  Columns for the export: \<open>name\<close> has never been resized, \<open>age\<close> has been resized and
  has an unbounded \<open>maxWidth\<close>. The dimension properties are given their usual value.
\<close>

definition exampleDimensionProperties :: "string list" where
  "exampleDimensionProperties = [''maxWidth'', ''minWidth'', ''width'', ''flex'']"

definition exampleColName :: GridColDef where
  "exampleColName =
     \<lparr>field = ''name'', headerName = Some ''Name'', hasBeenResized = False,
      dimensionValue = (\<lambda>p. if p = ''maxWidth'' then Some Infinity
                             else if p = ''minWidth'' then Some (Finite 50)
                             else if p = ''width'' then Some (Finite 100) else None)\<rparr>"

definition exampleColAge :: GridColDef where
  "exampleColAge =
     \<lparr>field = ''age'', headerName = None, hasBeenResized = True,
      dimensionValue = (\<lambda>p. if p = ''maxWidth'' then Some Infinity
                             else if p = ''minWidth'' then Some (Finite 50)
                             else if p = ''width'' then Some (Finite 150) else None)\<rparr>"

definition dirtyExportEnv :: ColumnsExportEnv where
  "dirtyExportEnv =
     \<lparr>columnVisibilityModelProp = None, initialStateProp = None,
      selectedColumnVisibilityModel = [],
      selectedColumnFields = [''name'', ''age''],
      selectedColumnDefinitions = [exampleColName, exampleColAge\<lparr>hasBeenResized := False\<rparr>],
      COLUMNS_DIMENSION_PROPERTIES = exampleDimensionProperties\<rparr>"

definition resizedExportEnv :: ColumnsExportEnv where
  "resizedExportEnv =
     dirtyExportEnv\<lparr>selectedColumnDefinitions := [exampleColName, exampleColAge]\<rparr>"

text \<open>A columns state with the two example columns, and the detail panel on and off.\<close>

definition exampleToggleColDef :: GridColDef where
  "exampleToggleColDef =
     \<lparr>field = ''__detail_panel_toggle__'', headerName = None, hasBeenResized = False,
      dimensionValue = (\<lambda>p. if p = ''width'' then Some (Finite 40) else None)\<rparr>"

definition detailPanelOn :: DetailPanelEnv where
  "detailPanelOn =
     \<lparr>getDetailPanelContent = Some (\<lambda>row. ''details of '' @ model row),
      GRID_DETAIL_PANEL_TOGGLE_FIELD = ''__detail_panel_toggle__'',
      GRID_DETAIL_PANEL_TOGGLE_COL_DEF = exampleToggleColDef,
      detailPanelToggleText = ''Detail panel toggle''\<rparr>"

definition detailPanelOff :: DetailPanelEnv where
  "detailPanelOff = detailPanelOn\<lparr>getDetailPanelContent := None\<rparr>"

definition exampleColumnsState :: GridColumnsState where
  "exampleColumnsState =
     \<lparr>orderedFields = [''name'', ''age''],
      lookup = [''name'' \<mapsto> exampleColName, ''age'' \<mapsto> exampleColAge],
      columnVisibilityModel = []\<rparr>"

section \<open>Properties\<close>

subsection \<open>The shape of a run\<close>

lemma choose_flag:
  "chooseBaseRowHeight e r en f =
     (case chooseBaseRowHeight e r en False of (b, en1, a) \<Rightarrow> (b, en1, f \<or> a))"
  unfolding chooseBaseRowHeight_def
  by (simp add: Let_def split: option.splits GridRowHeightReturnValue.splits)

lemma choose_auto:
  "snd (snd (chooseBaseRowHeight e r en False)) =
     (case getRowHeightProp e of None \<Rightarrow> False
      | Some g \<Rightarrow> \<not> isResized en \<and> g (heightParams e r) = HeightAuto)"
  unfolding chooseBaseRowHeight_def
  by (simp add: Let_def split: option.splits GridRowHeightReturnValue.splits)

lemma calc_eq:
  "calculateRowProcessedSizes e r s =
     (sizes (entryAfter e r (rowsHeightLookup s (rowId r))),
      s\<lparr>rowsHeightLookup :=
           (rowsHeightLookup s)(rowId r \<mapsto> entryAfter e r (rowsHeightLookup s (rowId r))),
        hasRowWithAutoHeight :=
           (hasRowWithAutoHeight s \<or> rowIsAuto e r (rowsHeightLookup s (rowId r)))\<rparr>)"
proof -
  obtain b en1 a where c: "chooseBaseRowHeight e r (cachedOrNew e (rowsHeightLookup s (rowId r))) False = (b, en1, a)"
    by (cases "chooseBaseRowHeight e r (cachedOrNew e (rowsHeightLookup s (rowId r))) False") auto
  have a: "a = rowIsAuto e r (rowsHeightLookup s (rowId r))"
    using choose_auto [of e r "cachedOrNew e (rowsHeightLookup s (rowId r))"] c
    by (simp add: rowIsAuto_def)
  have c': "chooseBaseRowHeight e r (cachedOrNew e (rowsHeightLookup s (rowId r))) (hasRowWithAutoHeight s)
      = (b, en1, hasRowWithAutoHeight s \<or> a)"
    using choose_flag [of e r "cachedOrNew e (rowsHeightLookup s (rowId r))" "hasRowWithAutoHeight s"] c
    by simp
  show ?thesis
    using c c' a
    by (simp add: calculateRowProcessedSizes_def entryAfter_def Let_def cachedOrNew_def)
qed

lemma processRows_Nil [simp]: "processRows e [] s = s"
  by (simp add: processRows_def)

lemma processRows_Cons [simp]:
  "processRows e (r # rs) s = processRows e rs (snd (calculateRowProcessedSizes e r s))"
  by (simp add: processRows_def)

lemma processRows_append: "processRows e (rs @ rs') s = processRows e rs' (processRows e rs s)"
  by (simp add: processRows_def)

lemma foldl_reduceStep:
  "foldl (reduceStep e) (acc, poss, s) rs =
     (acc + sum_list (map rowTotalHeight (processedSizesInRun e rs s)),
      poss @ prefixSums acc (map rowTotalHeight (processedSizesInRun e rs s)),
      processRows e rs s)"
proof (induction rs arbitrary: acc poss s)
  case Nil
  then show ?case by simp
next
  case (Cons r rs)
  obtain ps s' where c: "calculateRowProcessedSizes e r s = (ps, s')"
    by (cases "calculateRowProcessedSizes e r s") auto
  show ?case
    using Cons.IH [of "acc + rowTotalHeight ps" "poss @ [acc]" s'] c
    by (simp add: reduceStep_def add.assoc)
qed

lemma length_processedSizesInRun [simp]: "length (processedSizesInRun e rs s) = length rs"
  by (induction rs arbitrary: s) (auto split: prod.splits)

lemma length_prefixSums [simp]: "length (prefixSums a hs) = length hs"
  by (induction hs arbitrary: a) auto


lemma forEachPinned_eq:
  "forEachPinned e rows s = processRows e (case rows of None \<Rightarrow> [] | Some rs \<Rightarrow> rs) s"
  by (simp add: forEachPinned_def processRows_def split: option.splits)

lemma hydrateRowsMeta_eq:
  "hydrateRowsMeta e s =
     (let hs = map rowTotalHeight (pageProcessedSizes e s);
          s4 = processRows e (hydratedRows e) (s\<lparr>hasRowWithAutoHeight := False\<rparr>);
          s5 = s4\<lparr>rowsMeta := \<lparr>currentPageTotalHeight = sum_list hs, positions = prefixSums 0 hs\<rparr>\<rparr>
      in if hasRowWithAutoHeight s4 then s5 else s5\<lparr>lastMeasuredRowIndex := Infinity\<rparr>)"
  by (simp add: hydrateRowsMeta_def foldl_reduceStep forEachPinned_eq pageProcessedSizes_def
      hydratedRows_def pinnedTopRows_def pinnedBottomRows_def processRows_append Let_def
      split: option.splits)


subsection \<open>Accessors on a row the cache does not hold\<close>



text \<open>
  C9. For a row id that the height cache does not hold, \<open>setRowHeight\<close> faults on the
  unguarded read of the missing entry (a \<open>TypeError\<close>): it neither returns nor raises an
  error of its own.
\<close>

theorem setRowHeight_absent:
  "rowsHeightLookup s rid = None \<Longrightarrow> setRowHeight e rid height s = Inl TypeError"
  by (simp add: setRowHeight_def)

theorem setRowHeight_absent_witness:
  "rowsHeightLookup rowsMetaStateInitializer 7 = None \<and>
   setRowHeight plainEnv 7 100 rowsMetaStateInitializer = Inl TypeError"
  using setRowHeight_absent [of rowsMetaStateInitializer 7 plainEnv 100]
  by (simp add: rowsMetaStateInitializer_def)

subsection \<open>Storing a measured height\<close>

text \<open>
  C4. \<open>storeRowHeightMeasurement(id, height, position)\<close>: when the cache has no entry for
  the id, or the entry is not flagged \<open>autoHeight\<close>, the refs are left as they are
  (nothing is written and no recomputation is scheduled). Otherwise
  \<open>needsFirstMeasurement\<close> becomes false, the component \<open>base<Position>\<close> becomes the
  height, and the debounced recomputation is called if and only if the stored value of
  that component differed from the height.
\<close>

theorem storeMeasuredRowHeight_effect:
  "((rowsHeightLookup s rid = None \<or>
     (\<exists>en. rowsHeightLookup s rid = Some en \<and> \<not> autoHeight en)) \<longrightarrow>
      storeMeasuredRowHeight rid height position s = s) \<and>
   (\<forall>en. rowsHeightLookup s rid = Some en \<and> autoHeight en \<longrightarrow>
      storeMeasuredRowHeight rid height position s =
        s\<lparr>rowsHeightLookup := (rowsHeightLookup s)(rid \<mapsto>
             en\<lparr>needsFirstMeasurement := False,
                sizes := AList.update (''base'' @ capitalize position) height (sizes en)\<rparr>),
          debouncedHydrateCalls :=
            (if map_of (sizes en) (''base'' @ capitalize position) \<noteq> Some height
             then Suc (debouncedHydrateCalls s) else debouncedHydrateCalls s)\<rparr> \<and>
      (\<exists>en'. rowsHeightLookup (storeMeasuredRowHeight rid height position s) rid = Some en' \<and>
         needsFirstMeasurement en' = False \<and>
         map_of (sizes en') (''base'' @ capitalize position) = Some height) \<and>
      (debouncedHydrateCalls (storeMeasuredRowHeight rid height position s) =
         Suc (debouncedHydrateCalls s)
       \<longleftrightarrow> map_of (sizes en) (''base'' @ capitalize position) \<noteq> Some height) \<and>
      (debouncedHydrateCalls (storeMeasuredRowHeight rid height position s) =
         debouncedHydrateCalls s
       \<longleftrightarrow> map_of (sizes en) (''base'' @ capitalize position) = Some height))"
  by (auto simp: storeMeasuredRowHeight_def Let_def AList.update_conv')

theorem storeMeasuredRowHeight_effect_witness:
  "storeMeasuredRowHeight 2 80 ''center'' exampleMeasuredRefs = exampleMeasuredRefs \<and>
   getRowHeight plainEnv (storeMeasuredRowHeight 1 80 ''center'' exampleMeasuredRefs) 1 = Some 80 \<and>
   debouncedHydrateCalls (storeMeasuredRowHeight 1 80 ''center'' exampleMeasuredRefs) = 1 \<and>
   debouncedHydrateCalls (storeMeasuredRowHeight 1 50 ''center'' exampleMeasuredRefs) = 0"
proof -
  have absent: "rowsHeightLookup exampleMeasuredRefs 2 = None"
    by (simp add: exampleMeasuredRefs_def rowsMetaStateInitializer_def)
  have present: "rowsHeightLookup exampleMeasuredRefs 1 = Some exampleAutoEntry \<and> autoHeight exampleAutoEntry"
    by (simp add: exampleMeasuredRefs_def rowsMetaStateInitializer_def exampleAutoEntry_def)
  have key: "''base'' @ capitalize ''center'' = ''baseCenter''"
    by (simp add: toUpperChar_def)
  have calls: "debouncedHydrateCalls exampleMeasuredRefs = 0"
    by (simp add: exampleMeasuredRefs_def rowsMetaStateInitializer_def)
  note store80 = storeMeasuredRowHeight_effect [of exampleMeasuredRefs 1 80 "''center''", unfolded key]
  note store50 = storeMeasuredRowHeight_effect [of exampleMeasuredRefs 1 50 "''center''", unfolded key]
  have "storeMeasuredRowHeight 2 80 ''center'' exampleMeasuredRefs = exampleMeasuredRefs"
    using storeMeasuredRowHeight_effect [of exampleMeasuredRefs 2 80 "''center''"] absent by blast
  moreover have "getRowHeight plainEnv (storeMeasuredRowHeight 1 80 ''center'' exampleMeasuredRefs) 1 = Some 80"
    using store80 present by (auto simp: getRowHeight_def)
  moreover have "debouncedHydrateCalls (storeMeasuredRowHeight 1 80 ''center'' exampleMeasuredRefs) = 1"
    using store80 present calls by (simp add: exampleAutoEntry_def)
  moreover have "debouncedHydrateCalls (storeMeasuredRowHeight 1 50 ''center'' exampleMeasuredRefs) = 0"
    using store50 present calls by (simp add: exampleAutoEntry_def)
  ultimately show ?thesis by blast
qed

subsection \<open>The watermark of the measured rows\<close>

lemma js_le_refl: "js_le a a"
  by (cases a) (simp_all add: js_le_def)

lemma js_gt_imp_le: "js_gt i c \<Longrightarrow> js_le c i"
  by (cases i; cases c) (simp_all add: js_le_def)

lemma js_le_Infinity: "js_le a Infinity"
  by (simp add: js_le_def)

lemma isResized_entryAfter:
  "isResized (entryAfter e r cached) = isResized (cachedOrNew e cached)"
  unfolding entryAfter_def chooseBaseRowHeight_def
  by (simp add: Let_def split: option.splits GridRowHeightReturnValue.splits)

lemma rowIsAuto_entryAfter:
  "rowIsAuto e r' (Some (entryAfter e r cached)) = rowIsAuto e r' cached"
  by (simp add: rowIsAuto_def isResized_entryAfter cachedOrNew_def split: option.splits)

lemma rowIsAuto_after_calc:
  "rowIsAuto e r' (rowsHeightLookup (snd (calculateRowProcessedSizes e r s)) (rowId r')) =
     rowIsAuto e r' (rowsHeightLookup s (rowId r'))"
  by (simp add: calc_eq rowIsAuto_entryAfter)

lemma hasRowWithAutoHeight_processRows:
  "hasRowWithAutoHeight (processRows e rs s) =
     (hasRowWithAutoHeight s \<or> (\<exists>r\<in>set rs. rowIsAuto e r (rowsHeightLookup s (rowId r))))"
proof (induction rs arbitrary: s)
  case Nil
  then show ?case by simp
next
  case (Cons r rs)
  have "hasRowWithAutoHeight (snd (calculateRowProcessedSizes e r s)) =
          (hasRowWithAutoHeight s \<or> rowIsAuto e r (rowsHeightLookup s (rowId r)))"
    by (simp add: calc_eq)
  then show ?case
    using Cons.IH [of "snd (calculateRowProcessedSizes e r s)"]
    by (auto simp: rowIsAuto_after_calc)
qed

lemma lastMeasuredRowIndex_processRows:
  "lastMeasuredRowIndex (processRows e rs s) = lastMeasuredRowIndex s"
  by (induction rs arbitrary: s) (simp_all add: calc_eq)

lemma hasRowWithAutoHeight_hydrateRowsMeta:
  "hasRowWithAutoHeight (hydrateRowsMeta e s) =
     (\<exists>r\<in>set (hydratedRows e). rowIsAuto e r (rowsHeightLookup s (rowId r)))"
  by (simp add: hydrateRowsMeta_eq Let_def hasRowWithAutoHeight_processRows)

lemma lastMeasuredRowIndex_hydrateRowsMeta:
  "lastMeasuredRowIndex (hydrateRowsMeta e s) =
     (if \<exists>r\<in>set (hydratedRows e). rowIsAuto e r (rowsHeightLookup s (rowId r))
      then lastMeasuredRowIndex s else Infinity)"
  by (simp add: hydrateRowsMeta_eq Let_def hasRowWithAutoHeight_processRows
      lastMeasuredRowIndex_processRows)

text \<open>
  C5. The watermark \<open>lastMeasuredRowIndex\<close> only advances. \<open>setLastMeasuredRowIndex(i)\<close>
  changes nothing but the watermark, and changes it only when a row is in auto-height
  mode (the flag \<open>hasRowWithAutoHeight\<close>, which a run of \<open>hydrateRowsMeta\<close> sets exactly
  when one of the rows it processes is not resized and has the height \<open>'auto'\<close>) and
  \<open>i\<close> is greater than the watermark, which then becomes \<open>i\<close>. A run of
  \<open>hydrateRowsMeta\<close> that finds no row in auto-height mode sets the watermark to
  \<open>Infinity\<close>; any other run leaves it as it is.
\<close>

theorem lastMeasuredRowIndex_advances:
  "(lastMeasuredRowIndex (setLastMeasuredRowIndex i s) \<noteq> lastMeasuredRowIndex s \<longrightarrow>
      hasRowWithAutoHeight s \<and> js_gt i (lastMeasuredRowIndex s)) \<and>
   (hasRowWithAutoHeight s \<and> js_gt i (lastMeasuredRowIndex s) \<longrightarrow>
      lastMeasuredRowIndex (setLastMeasuredRowIndex i s) = i) \<and>
   setLastMeasuredRowIndex i s =
     s\<lparr>lastMeasuredRowIndex := lastMeasuredRowIndex (setLastMeasuredRowIndex i s)\<rparr> \<and>
   js_le (lastMeasuredRowIndex s) (lastMeasuredRowIndex (setLastMeasuredRowIndex i s)) \<and>
   hasRowWithAutoHeight (hydrateRowsMeta e s) =
     (\<exists>r\<in>set (hydratedRows e). rowIsAuto e r (rowsHeightLookup s (rowId r))) \<and>
   (\<not> hasRowWithAutoHeight (hydrateRowsMeta e s) \<longrightarrow>
      lastMeasuredRowIndex (hydrateRowsMeta e s) = Infinity) \<and>
   (hasRowWithAutoHeight (hydrateRowsMeta e s) \<longrightarrow>
      lastMeasuredRowIndex (hydrateRowsMeta e s) = lastMeasuredRowIndex s) \<and>
   js_le (lastMeasuredRowIndex s) (lastMeasuredRowIndex (hydrateRowsMeta e s))"
proof -
  have set_idx: "lastMeasuredRowIndex (setLastMeasuredRowIndex i s) =
      (if hasRowWithAutoHeight s \<and> js_gt i (lastMeasuredRowIndex s) then i
       else lastMeasuredRowIndex s)"
    by (simp add: setLastMeasuredRowIndex_def)
  have p1: "lastMeasuredRowIndex (setLastMeasuredRowIndex i s) \<noteq> lastMeasuredRowIndex s \<longrightarrow>
      hasRowWithAutoHeight s \<and> js_gt i (lastMeasuredRowIndex s)"
    by (simp add: set_idx)
  have p2: "hasRowWithAutoHeight s \<and> js_gt i (lastMeasuredRowIndex s) \<longrightarrow>
      lastMeasuredRowIndex (setLastMeasuredRowIndex i s) = i"
    by (simp add: set_idx)
  have p3: "setLastMeasuredRowIndex i s =
     s\<lparr>lastMeasuredRowIndex := lastMeasuredRowIndex (setLastMeasuredRowIndex i s)\<rparr>"
    by (simp add: setLastMeasuredRowIndex_def)
  have p4: "js_le (lastMeasuredRowIndex s) (lastMeasuredRowIndex (setLastMeasuredRowIndex i s))"
    by (simp add: set_idx js_le_refl js_gt_imp_le)
  note p5 = hasRowWithAutoHeight_hydrateRowsMeta [of e s]
  have p6: "\<not> hasRowWithAutoHeight (hydrateRowsMeta e s) \<longrightarrow>
      lastMeasuredRowIndex (hydrateRowsMeta e s) = Infinity"
    by (simp add: p5 lastMeasuredRowIndex_hydrateRowsMeta)
  have p7: "hasRowWithAutoHeight (hydrateRowsMeta e s) \<longrightarrow>
      lastMeasuredRowIndex (hydrateRowsMeta e s) = lastMeasuredRowIndex s"
    by (simp add: p5 lastMeasuredRowIndex_hydrateRowsMeta)
  have p8: "js_le (lastMeasuredRowIndex s) (lastMeasuredRowIndex (hydrateRowsMeta e s))"
    by (simp add: lastMeasuredRowIndex_hydrateRowsMeta js_le_refl js_le_Infinity)
  show ?thesis
    using p1 p2 p3 p4 p5 p6 p7 p8 by blast
qed

theorem lastMeasuredRowIndex_advances_witness:
  "lastMeasuredRowIndex (hydrateRowsMeta plainEnv rowsMetaStateInitializer) = Infinity \<and>
   hasRowWithAutoHeight (hydrateRowsMeta autoEnv rowsMetaStateInitializer) \<and>
   lastMeasuredRowIndex (hydrateRowsMeta autoEnv rowsMetaStateInitializer) = Finite (- 1) \<and>
   lastMeasuredRowIndex
     (setLastMeasuredRowIndex (Finite 3) (hydrateRowsMeta autoEnv rowsMetaStateInitializer)) =
     Finite 3 \<and>
   lastMeasuredRowIndex
     (setLastMeasuredRowIndex (Finite 3) (hydrateRowsMeta plainEnv rowsMetaStateInitializer)) =
     Infinity"
proof -
  have no_auto: "\<not> (\<exists>r\<in>set (hydratedRows plainEnv).
      rowIsAuto plainEnv r (rowsHeightLookup rowsMetaStateInitializer (rowId r)))"
    by (simp add: rowIsAuto_def plainEnv_def)
  have an_auto: "\<exists>r\<in>set (hydratedRows autoEnv).
      rowIsAuto autoEnv r (rowsHeightLookup rowsMetaStateInitializer (rowId r))"
    by (simp add: rowIsAuto_def autoEnv_def plainEnv_def hydratedRows_def exampleRow1_def
        heightParams_def cachedOrNew_def newRowHeightEntry_def rowsMetaStateInitializer_def)
  have init: "lastMeasuredRowIndex rowsMetaStateInitializer = Finite (- 1)"
    by (simp add: rowsMetaStateInitializer_def)
  note plain = lastMeasuredRowIndex_advances [of "Finite 3" rowsMetaStateInitializer plainEnv]
  note auto = lastMeasuredRowIndex_advances [of "Finite 3" rowsMetaStateInitializer autoEnv]
  note plain_set = lastMeasuredRowIndex_advances [of "Finite 3"
      "hydrateRowsMeta plainEnv rowsMetaStateInitializer" plainEnv]
  note auto_set = lastMeasuredRowIndex_advances [of "Finite 3"
      "hydrateRowsMeta autoEnv rowsMetaStateInitializer" autoEnv]
  have a1: "lastMeasuredRowIndex (hydrateRowsMeta plainEnv rowsMetaStateInitializer) = Infinity"
    using plain no_auto by blast
  have a2: "hasRowWithAutoHeight (hydrateRowsMeta autoEnv rowsMetaStateInitializer)"
    using auto an_auto by blast
  have a3: "lastMeasuredRowIndex (hydrateRowsMeta autoEnv rowsMetaStateInitializer) = Finite (- 1)"
    using auto a2 init by simp
  have "js_gt (Finite 3) (lastMeasuredRowIndex (hydrateRowsMeta autoEnv rowsMetaStateInitializer))"
    by (simp add: a3)
  then have a4: "lastMeasuredRowIndex
     (setLastMeasuredRowIndex (Finite 3) (hydrateRowsMeta autoEnv rowsMetaStateInitializer)) =
     Finite 3"
    using auto_set a2 by blast
  have "\<not> js_gt (Finite 3) (lastMeasuredRowIndex (hydrateRowsMeta plainEnv rowsMetaStateInitializer))"
    by (simp add: a1)
  then have a5: "lastMeasuredRowIndex
     (setLastMeasuredRowIndex (Finite 3) (hydrateRowsMeta plainEnv rowsMetaStateInitializer)) =
     Infinity"
    using plain_set a1 by metis
  show ?thesis using a1 a2 a3 a4 a5 by blast
qed

subsection \<open>The export of the columns state\<close>

lemma exportColDefDimensions_snoc:
  "exportColDefDimensions (ps @ [q]) c =
     AList.update q (if dimensionValue c q = Some Infinity then Some (Finite (- 1))
                     else dimensionValue c q)
       (exportColDefDimensions ps c)"
  by (simp add: exportColDefDimensions_def Let_def)

lemma map_of_exportColDefDimensions:
  "map_of (exportColDefDimensions ps c) p =
     (if p \<in> set ps
      then Some (if dimensionValue c p = Some Infinity then Some (Finite (- 1))
                 else dimensionValue c p)
      else None)"
proof (induction ps rule: rev_induct)
  case Nil
  then show ?case by (simp add: exportColDefDimensions_def)
next
  case (snoc q ps)
  then show ?case
    by (simp add: exportColDefDimensions_snoc AList.update_conv')
qed

lemma distinct_exportColDefDimensions:
  "distinct (map fst (exportColDefDimensions ps c))"
proof (induction ps rule: rev_induct)
  case Nil
  then show ?case by (simp add: exportColDefDimensions_def)
next
  case (snoc q ps)
  then show ?case
    by (simp add: exportColDefDimensions_snoc AList.distinct_update)
qed

lemma exportColDefDimensions_entries:
  assumes "(p, v) \<in> set (exportColDefDimensions ps c)"
  shows "p \<in> set ps \<and> v \<noteq> Some Infinity"
proof -
  have "map_of (exportColDefDimensions ps c) p = Some v"
    using assms distinct_exportColDefDimensions by (simp add: map_of_is_SomeI)
  then show ?thesis
    by (auto simp: map_of_exportColDefDimensions split: if_splits)
qed

lemma exportDimensions_snoc:
  "exportDimensions ps (cols @ [c]) =
     (if hasBeenResized c
      then AList.update (field c) (exportColDefDimensions ps c) (exportDimensions ps cols)
      else exportDimensions ps cols)"
  by (simp add: exportDimensions_def)

lemma map_of_exportDimensions:
  "map_of (exportDimensions ps cols) f = Some d \<Longrightarrow>
     \<exists>c\<in>set cols. hasBeenResized c \<and> field c = f \<and> d = exportColDefDimensions ps c"
proof (induction cols arbitrary: d rule: rev_induct)
  case Nil
  then show ?case by (simp add: exportDimensions_def)
next
  case (snoc c cols)
  then show ?case
    by (auto simp: exportDimensions_snoc AList.update_conv' split: if_splits)
qed

lemma keys_exportDimensions:
  "fst ` set (exportDimensions ps cols) = field ` {c \<in> set cols. hasBeenResized c}"
proof (induction cols rule: rev_induct)
  case Nil
  then show ?case by (simp add: exportDimensions_def)
next
  case (snoc c cols)
  then show ?case
    by (auto simp: exportDimensions_snoc AList.dom_update)
qed

lemma exportDimensions_resized:
  "c \<in> set cols \<Longrightarrow> hasBeenResized c \<Longrightarrow> map_of (exportDimensions ps cols) (field c) \<noteq> None"
proof -
  assume "c \<in> set cols" "hasBeenResized c"
  then have "field c \<in> fst ` set (exportDimensions ps cols)"
    by (auto simp: keys_exportDimensions)
  then show ?thesis
    by (simp add: map_of_eq_None_iff)
qed

lemma exportDimensions_empty:
  "(exportDimensions ps cols = []) = (\<forall>c\<in>set cols. \<not> hasBeenResized c)"
proof -
  have "(exportDimensions ps cols = []) = (fst ` set (exportDimensions ps cols) = {})"
    by simp
  then show ?thesis
    by (auto simp: keys_exportDimensions)
qed

text \<open>
  C6, as the claim states it, fails: with \<open>exportOnlyDirtyModels\<close>, no controlled
  model, no initial model and an empty visibility model the export has no
  \<open>columnVisibilityModel\<close>, so that the model is not always emitted.
\<close>

theorem stateExportPreProcessing_visibility_counterexample:
  "columns (stateExportPreProcessing dirtyExportEnv \<lparr>columns = None\<rparr>
      \<lparr>exportOnlyDirtyModels = True\<rparr>) =
     Some \<lparr>initialColumnVisibilityModel = None,
           initialOrderedFields = Some [''name'', ''age''],
           initialDimensions = None\<rparr>"
  by (simp add: stateExportPreProcessing_def shouldExportColumnVisibilityModel_def
      initialVisibilityModelOrEmpty_def exportDimensions_def dirtyExportEnv_def
      exampleColName_def exampleColAge_def Let_def)

text \<open>
  C6, amended. The processor always emits the ordered fields. It emits the visibility
  model unless \<open>exportOnlyDirtyModels\<close> is set while the model is not controlled, the
  initial model is absent or empty and the current model is empty. It emits
  \<open>dimensions\<close> only when a column is flagged \<open>hasBeenResized\<close>, with one record for
  each resized column and for no other field; such a record gives every dimension
  property the value of the column, \<open>-1\<close> standing for \<open>Infinity\<close>. With
  \<open>exportOnlyDirtyModels\<close>, no visibility override and no resized column the columns
  snapshot holds the ordered fields only.
\<close>

theorem stateExportPreProcessing_columns:
  "columns (stateExportPreProcessing env prevState ctx) =
     Some \<lparr>initialColumnVisibilityModel =
             (if exportOnlyDirtyModels ctx \<and> columnVisibilityModelProp env = None \<and>
                 initialVisibilityModelOrEmpty env = [] \<and>
                 selectedColumnVisibilityModel env = []
              then None else Some (selectedColumnVisibilityModel env)),
           initialOrderedFields = Some (selectedColumnFields env),
           initialDimensions =
             (if \<exists>c\<in>set (selectedColumnDefinitions env). hasBeenResized c
              then Some (exportDimensions (COLUMNS_DIMENSION_PROPERTIES env)
                           (selectedColumnDefinitions env))
              else None)\<rparr> \<and>
   (\<forall>f d. map_of (exportDimensions (COLUMNS_DIMENSION_PROPERTIES env)
                     (selectedColumnDefinitions env)) f = Some d \<longrightarrow>
          (\<exists>c\<in>set (selectedColumnDefinitions env). hasBeenResized c \<and> field c = f \<and>
             d = exportColDefDimensions (COLUMNS_DIMENSION_PROPERTIES env) c)) \<and>
   (\<forall>c\<in>set (selectedColumnDefinitions env). hasBeenResized c \<longrightarrow>
      map_of (exportDimensions (COLUMNS_DIMENSION_PROPERTIES env)
                (selectedColumnDefinitions env)) (field c) \<noteq> None) \<and>
   (\<forall>c. \<forall>p\<in>set (COLUMNS_DIMENSION_PROPERTIES env).
      map_of (exportColDefDimensions (COLUMNS_DIMENSION_PROPERTIES env) c) p =
        Some (if dimensionValue c p = Some Infinity then Some (Finite (- 1))
              else dimensionValue c p)) \<and>
   (\<forall>c p v. (p, v) \<in> set (exportColDefDimensions (COLUMNS_DIMENSION_PROPERTIES env) c) \<longrightarrow>
      p \<in> set (COLUMNS_DIMENSION_PROPERTIES env) \<and> v \<noteq> Some Infinity) \<and>
   (exportOnlyDirtyModels ctx \<and> columnVisibilityModelProp env = None \<and>
    initialVisibilityModelOrEmpty env = [] \<and> selectedColumnVisibilityModel env = [] \<and>
    (\<forall>c\<in>set (selectedColumnDefinitions env). \<not> hasBeenResized c) \<longrightarrow>
      columns (stateExportPreProcessing env prevState ctx) =
        Some \<lparr>initialColumnVisibilityModel = None,
              initialOrderedFields = Some (selectedColumnFields env),
              initialDimensions = None\<rparr>)"
proof -
  have out: "columns (stateExportPreProcessing env prevState ctx) =
     Some \<lparr>initialColumnVisibilityModel =
             (if exportOnlyDirtyModels ctx \<and> columnVisibilityModelProp env = None \<and>
                 initialVisibilityModelOrEmpty env = [] \<and>
                 selectedColumnVisibilityModel env = []
              then None else Some (selectedColumnVisibilityModel env)),
           initialOrderedFields = Some (selectedColumnFields env),
           initialDimensions =
             (if \<exists>c\<in>set (selectedColumnDefinitions env). hasBeenResized c
              then Some (exportDimensions (COLUMNS_DIMENSION_PROPERTIES env)
                           (selectedColumnDefinitions env))
              else None)\<rparr>"
    using exportDimensions_empty [of "COLUMNS_DIMENSION_PROPERTIES env" "selectedColumnDefinitions env"]
    by (auto simp: stateExportPreProcessing_def shouldExportColumnVisibilityModel_def Let_def)
  have scenario: "exportOnlyDirtyModels ctx \<and> columnVisibilityModelProp env = None \<and>
    initialVisibilityModelOrEmpty env = [] \<and> selectedColumnVisibilityModel env = [] \<and>
    (\<forall>c\<in>set (selectedColumnDefinitions env). \<not> hasBeenResized c) \<longrightarrow>
      columns (stateExportPreProcessing env prevState ctx) =
        Some \<lparr>initialColumnVisibilityModel = None,
              initialOrderedFields = Some (selectedColumnFields env),
              initialDimensions = None\<rparr>"
    using out by simp
  show ?thesis
    using out scenario map_of_exportDimensions exportDimensions_resized
      map_of_exportColDefDimensions exportColDefDimensions_entries
    by (intro conjI allI ballI impI) (blast | simp)+
qed

theorem stateExportPreProcessing_columns_witness:
  "columns (stateExportPreProcessing dirtyExportEnv \<lparr>columns = None\<rparr>
      \<lparr>exportOnlyDirtyModels = True\<rparr>) =
     Some \<lparr>initialColumnVisibilityModel = None,
           initialOrderedFields = Some [''name'', ''age''],
           initialDimensions = None\<rparr> \<and>
   map_of (exportDimensions exampleDimensionProperties [exampleColName, exampleColAge]) ''age''
     \<noteq> None \<and>
   map_of (exportColDefDimensions exampleDimensionProperties exampleColAge) ''maxWidth'' =
     Some (Some (Finite (- 1))) \<and>
   map_of (exportColDefDimensions exampleDimensionProperties exampleColAge) ''width'' =
     Some (Some (Finite 150))"
proof -
  note dirty = stateExportPreProcessing_columns [of dirtyExportEnv "\<lparr>columns = None\<rparr>"
      "\<lparr>exportOnlyDirtyModels = True\<rparr>"]
  note resized = stateExportPreProcessing_columns [of resizedExportEnv "\<lparr>columns = None\<rparr>"
      "\<lparr>exportOnlyDirtyModels = True\<rparr>"]
  have hyp: "exportOnlyDirtyModels \<lparr>exportOnlyDirtyModels = True\<rparr> \<and>
      columnVisibilityModelProp dirtyExportEnv = None \<and>
      initialVisibilityModelOrEmpty dirtyExportEnv = [] \<and>
      selectedColumnVisibilityModel dirtyExportEnv = [] \<and>
      (\<forall>c\<in>set (selectedColumnDefinitions dirtyExportEnv). \<not> hasBeenResized c)"
    by (simp add: dirtyExportEnv_def initialVisibilityModelOrEmpty_def exampleColName_def
        exampleColAge_def)
  have fields: "selectedColumnFields dirtyExportEnv = [''name'', ''age'']"
    by (simp add: dirtyExportEnv_def)
  have env: "COLUMNS_DIMENSION_PROPERTIES resizedExportEnv = exampleDimensionProperties"
    "selectedColumnDefinitions resizedExportEnv = [exampleColName, exampleColAge]"
    by (simp_all add: resizedExportEnv_def dirtyExportEnv_def)
  have b1: "columns (stateExportPreProcessing dirtyExportEnv \<lparr>columns = None\<rparr>
      \<lparr>exportOnlyDirtyModels = True\<rparr>) =
     Some \<lparr>initialColumnVisibilityModel = None,
           initialOrderedFields = Some [''name'', ''age''],
           initialDimensions = None\<rparr>"
    using dirty hyp fields by simp
  have age: "exampleColAge \<in> set (selectedColumnDefinitions resizedExportEnv) \<and>
      hasBeenResized exampleColAge \<and> field exampleColAge = ''age''"
    by (simp add: env exampleColAge_def)
  have b2: "map_of (exportDimensions exampleDimensionProperties [exampleColName, exampleColAge])
      ''age'' \<noteq> None"
    using resized age unfolding env by metis
  have props: "''maxWidth'' \<in> set exampleDimensionProperties"
    "''width'' \<in> set exampleDimensionProperties"
    by (simp_all add: exampleDimensionProperties_def)
  have vals: "dimensionValue exampleColAge ''maxWidth'' = Some Infinity"
    "dimensionValue exampleColAge ''width'' = Some (Finite 150)"
    by (simp_all add: exampleColAge_def)
  have b3: "map_of (exportColDefDimensions exampleDimensionProperties exampleColAge) ''maxWidth'' =
     Some (Some (Finite (- 1)))"
    using resized props(1) vals(1) unfolding env by simp
  have b4: "map_of (exportColDefDimensions exampleDimensionProperties exampleColAge) ''width'' =
     Some (Some (Finite 150))"
    using resized props(2) vals(2) unfolding env by simp
  show ?thesis using b1 b2 b3 b4 by blast
qed

subsection \<open>The toggle column of the detail panel\<close>

lemma addToggleColumn_twice:
  "addToggleColumn env (addToggleColumn env cs) = addToggleColumn env cs"
  by (simp add: addToggleColumn_def Let_def split: option.splits)

lemma addToggleColumn_funpow:
  "(addToggleColumn env ^^ Suc n) cs = addToggleColumn env cs"
  by (induction n) (simp_all add: addToggleColumn_twice)

lemma count_list_distinct:
  "distinct xs \<Longrightarrow> count_list xs x = (if x \<in> set xs then 1 else 0)"
  by (induction xs) auto

text \<open>
  C7. The processor \<open>addToggleColumn\<close> is idempotent, so that any number of consecutive
  runs gives what one run gives. With \<open>getDetailPanelContent\<close> it puts the toggle field
  in front of the ordered fields and its definition into the lookup when the lookup has
  no toggle column, and changes nothing when the lookup has one; on a columns state
  whose ordered fields are distinct and are the keys of the lookup the toggle field
  then occurs exactly once, and the state keeps this form. Without
  \<open>getDetailPanelContent\<close> it removes the toggle field from the ordered fields and from
  the lookup, and changes nothing when the lookup has no toggle column.
\<close>

theorem addToggleColumn_idempotent:
  "addToggleColumn env (addToggleColumn env cs) = addToggleColumn env cs \<and>
   (\<forall>n. (addToggleColumn env ^^ Suc n) cs = addToggleColumn env cs) \<and>
   (getDetailPanelContent env \<noteq> None \<and>
    lookup cs (GRID_DETAIL_PANEL_TOGGLE_FIELD env) = None \<longrightarrow>
      addToggleColumn env cs =
        cs\<lparr>orderedFields := GRID_DETAIL_PANEL_TOGGLE_FIELD env # orderedFields cs,
           lookup := (lookup cs)(GRID_DETAIL_PANEL_TOGGLE_FIELD env \<mapsto>
             (GRID_DETAIL_PANEL_TOGGLE_COL_DEF env)
               \<lparr>headerName := Some (detailPanelToggleText env)\<rparr>)\<rparr>) \<and>
   (getDetailPanelContent env \<noteq> None \<and>
    lookup cs (GRID_DETAIL_PANEL_TOGGLE_FIELD env) \<noteq> None \<longrightarrow>
      addToggleColumn env cs = cs) \<and>
   (getDetailPanelContent env \<noteq> None \<and> distinct (orderedFields cs) \<and>
    set (orderedFields cs) = dom (lookup cs) \<longrightarrow>
      count_list (orderedFields (addToggleColumn env cs))
        (GRID_DETAIL_PANEL_TOGGLE_FIELD env) = 1 \<and>
      distinct (orderedFields (addToggleColumn env cs)) \<and>
      set (orderedFields (addToggleColumn env cs)) = dom (lookup (addToggleColumn env cs))) \<and>
   (getDetailPanelContent env = None \<and>
    lookup cs (GRID_DETAIL_PANEL_TOGGLE_FIELD env) \<noteq> None \<longrightarrow>
      addToggleColumn env cs =
        cs\<lparr>lookup := (lookup cs)(GRID_DETAIL_PANEL_TOGGLE_FIELD env := None),
           orderedFields :=
             filter (\<lambda>fld. fld \<noteq> GRID_DETAIL_PANEL_TOGGLE_FIELD env) (orderedFields cs)\<rparr> \<and>
      GRID_DETAIL_PANEL_TOGGLE_FIELD env \<notin> set (orderedFields (addToggleColumn env cs)) \<and>
      lookup (addToggleColumn env cs) (GRID_DETAIL_PANEL_TOGGLE_FIELD env) = None) \<and>
   (getDetailPanelContent env = None \<and>
    lookup cs (GRID_DETAIL_PANEL_TOGGLE_FIELD env) = None \<longrightarrow>
      addToggleColumn env cs = cs)"
proof -
  let ?T = "GRID_DETAIL_PANEL_TOGGLE_FIELD env"
  have on_new: "getDetailPanelContent env \<noteq> None \<and> lookup cs ?T = None \<longrightarrow>
      addToggleColumn env cs =
        cs\<lparr>orderedFields := ?T # orderedFields cs,
           lookup := (lookup cs)(?T \<mapsto>
             (GRID_DETAIL_PANEL_TOGGLE_COL_DEF env)
               \<lparr>headerName := Some (detailPanelToggleText env)\<rparr>)\<rparr>"
    by (auto simp: addToggleColumn_def Let_def)
  have on_old: "getDetailPanelContent env \<noteq> None \<and> lookup cs ?T \<noteq> None \<longrightarrow>
      addToggleColumn env cs = cs"
    by (auto simp: addToggleColumn_def Let_def)
  have once: "getDetailPanelContent env \<noteq> None \<and> distinct (orderedFields cs) \<and>
    set (orderedFields cs) = dom (lookup cs) \<longrightarrow>
      count_list (orderedFields (addToggleColumn env cs)) ?T = 1 \<and>
      distinct (orderedFields (addToggleColumn env cs)) \<and>
      set (orderedFields (addToggleColumn env cs)) = dom (lookup (addToggleColumn env cs))"
  proof (intro impI, elim conjE)
    assume on: "getDetailPanelContent env \<noteq> None" and d: "distinct (orderedFields cs)"
      and inv: "set (orderedFields cs) = dom (lookup cs)"
    show "count_list (orderedFields (addToggleColumn env cs)) ?T = 1 \<and>
      distinct (orderedFields (addToggleColumn env cs)) \<and>
      set (orderedFields (addToggleColumn env cs)) = dom (lookup (addToggleColumn env cs))"
    proof (cases "lookup cs ?T")
      case None
      then have notin: "?T \<notin> set (orderedFields cs)"
        using inv by (auto simp: dom_def)
      have eq: "addToggleColumn env cs =
        cs\<lparr>orderedFields := ?T # orderedFields cs,
           lookup := (lookup cs)(?T \<mapsto>
             (GRID_DETAIL_PANEL_TOGGLE_COL_DEF env)
               \<lparr>headerName := Some (detailPanelToggleText env)\<rparr>)\<rparr>"
        using on_new on None by simp
      show ?thesis
        using notin d inv by (simp add: eq count_list_distinct)
    next
      case (Some c)
      then have isin: "?T \<in> set (orderedFields cs)"
        using inv by (auto simp: dom_def)
      have eq: "addToggleColumn env cs = cs"
        using on_old on Some by simp
      show ?thesis
        using isin d inv by (simp add: eq count_list_distinct)
    qed
  qed
  have off_old: "getDetailPanelContent env = None \<and> lookup cs ?T \<noteq> None \<longrightarrow>
      addToggleColumn env cs =
        cs\<lparr>lookup := (lookup cs)(?T := None),
           orderedFields := filter (\<lambda>fld. fld \<noteq> ?T) (orderedFields cs)\<rparr> \<and>
      ?T \<notin> set (orderedFields (addToggleColumn env cs)) \<and>
      lookup (addToggleColumn env cs) ?T = None"
    by (auto simp: addToggleColumn_def Let_def)
  have off_new: "getDetailPanelContent env = None \<and> lookup cs ?T = None \<longrightarrow>
      addToggleColumn env cs = cs"
    by (auto simp: addToggleColumn_def Let_def)
  show ?thesis
    using addToggleColumn_twice [of env cs] addToggleColumn_funpow [where env = env and cs = cs]
      on_new on_old once off_old off_new
    by blast
qed

theorem addToggleColumn_idempotent_witness:
  "orderedFields (addToggleColumn detailPanelOn exampleColumnsState) =
     [''__detail_panel_toggle__'', ''name'', ''age''] \<and>
   orderedFields (addToggleColumn detailPanelOn (addToggleColumn detailPanelOn exampleColumnsState)) =
     [''__detail_panel_toggle__'', ''name'', ''age''] \<and>
   count_list (orderedFields (addToggleColumn detailPanelOn exampleColumnsState))
     ''__detail_panel_toggle__'' = 1 \<and>
   addToggleColumn detailPanelOff exampleColumnsState = exampleColumnsState \<and>
   orderedFields (addToggleColumn detailPanelOff (addToggleColumn detailPanelOn exampleColumnsState)) =
     [''name'', ''age'']"
proof -
  let ?on = "addToggleColumn detailPanelOn exampleColumnsState"
  note on1 = addToggleColumn_idempotent [of detailPanelOn exampleColumnsState]
  note off1 = addToggleColumn_idempotent [of detailPanelOff exampleColumnsState]
  note off2 = addToggleColumn_idempotent [of detailPanelOff ?on]
  have T: "GRID_DETAIL_PANEL_TOGGLE_FIELD detailPanelOn = ''__detail_panel_toggle__''"
    "GRID_DETAIL_PANEL_TOGGLE_FIELD detailPanelOff = ''__detail_panel_toggle__''"
    by (simp_all add: detailPanelOn_def detailPanelOff_def)
  have cap: "getDetailPanelContent detailPanelOn \<noteq> None" "getDetailPanelContent detailPanelOff = None"
    by (simp_all add: detailPanelOn_def detailPanelOff_def)
  have absent: "lookup exampleColumnsState ''__detail_panel_toggle__'' = None"
    by (simp add: exampleColumnsState_def)
  have inv: "distinct (orderedFields exampleColumnsState) \<and>
      set (orderedFields exampleColumnsState) = dom (lookup exampleColumnsState)"
    by (auto simp: exampleColumnsState_def)
  have c1: "orderedFields ?on = [''__detail_panel_toggle__'', ''name'', ''age'']"
    using on1 cap(1) absent unfolding T by (simp add: exampleColumnsState_def)
  have c2: "orderedFields (addToggleColumn detailPanelOn ?on) =
      [''__detail_panel_toggle__'', ''name'', ''age'']"
    using on1 c1 by simp
  have c3: "count_list (orderedFields ?on) ''__detail_panel_toggle__'' = 1"
    using on1 cap(1) inv unfolding T by blast
  have c4: "addToggleColumn detailPanelOff exampleColumnsState = exampleColumnsState"
    using off1 cap(2) absent unfolding T by blast
  have present: "lookup ?on ''__detail_panel_toggle__'' \<noteq> None"
    using on1 cap(1) absent unfolding T by simp
  have "addToggleColumn detailPanelOff ?on =
      ?on\<lparr>lookup := (lookup ?on)(''__detail_panel_toggle__'' := None),
          orderedFields := filter (\<lambda>fld. fld \<noteq> ''__detail_panel_toggle__'') (orderedFields ?on)\<rparr>"
    using off2 cap(2) present unfolding T by blast
  then have c5: "orderedFields (addToggleColumn detailPanelOff ?on) = [''name'', ''age'']"
    by (simp add: c1)
  show ?thesis using c1 c2 c3 c4 c5 by blast
qed

subsection \<open>Positions and total height\<close>

lemma baseValues_simps [simp]:
  "baseValues [] = []"
  "baseValues ((k, v) # szs) = (if isBaseKey k then v # baseValues szs else baseValues szs)"
  by (simp_all add: baseValues_def)

lemma otherValues_simps [simp]:
  "otherValues [] = []"
  "otherValues ((k, v) # szs) = (if isBaseKey k then otherValues szs else v # otherValues szs)"
  by (simp_all add: otherValues_def)













lemma lookup_processRows_other:
  "k \<notin> rowId ` set rs \<Longrightarrow> rowsHeightLookup (processRows e rs s) k = rowsHeightLookup s k"
  by (induction rs arbitrary: s) (auto simp: calc_eq)


lemma processedSizesInRun_distinct:
  "distinct (map rowId rs) \<Longrightarrow>
     processedSizesInRun e rs s =
       map (\<lambda>r. sizes (entryAfter e r (rowsHeightLookup s (rowId r)))) rs"
proof (induction rs arbitrary: s)
  case Nil
  then show ?case by simp
next
  case (Cons r rs)
  let ?s' = "snd (calculateRowProcessedSizes e r s)"
  have "rowId r \<notin> rowId ` set rs"
    using Cons.prems by simp
  then have "\<forall>r'\<in>set rs. rowId r' \<noteq> rowId r"
    by (metis imageI)
  then have same: "\<forall>r'\<in>set rs. rowsHeightLookup ?s' (rowId r') = rowsHeightLookup s (rowId r')"
    by (simp add: calc_eq)
  have "processedSizesInRun e rs ?s' =
      map (\<lambda>r. sizes (entryAfter e r (rowsHeightLookup ?s' (rowId r)))) rs"
    using Cons.IH [of ?s'] Cons.prems by simp
  also have "\<dots> = map (\<lambda>r. sizes (entryAfter e r (rowsHeightLookup s (rowId r)))) rs"
    using same by (intro map_cong) simp_all
  finally show ?case
    by (simp add: calc_eq split: prod.splits)
qed

lemma lookup_processRows_distinct:
  "distinct (map rowId rs) \<Longrightarrow> r \<in> set rs \<Longrightarrow>
     rowsHeightLookup (processRows e rs s) (rowId r) =
       Some (entryAfter e r (rowsHeightLookup s (rowId r)))"
proof (induction rs arbitrary: s)
  case Nil
  then show ?case by simp
next
  case (Cons r0 rs)
  let ?s' = "snd (calculateRowProcessedSizes e r0 s)"
  show ?case
  proof (cases "r \<in> set rs")
    case True
    moreover have "rowId r0 \<notin> rowId ` set rs"
      using Cons.prems by simp
    ultimately have ne: "rowId r \<noteq> rowId r0"
      by (metis imageI)
    have "rowsHeightLookup (processRows e rs ?s') (rowId r) =
        Some (entryAfter e r (rowsHeightLookup ?s' (rowId r)))"
      using Cons.IH [of ?s'] Cons.prems True by simp
    then show ?thesis
      using ne by (simp add: calc_eq)
  next
    case False
    then have r: "r = r0" using Cons.prems by simp
    have "rowId r0 \<notin> rowId ` set rs"
      using Cons.prems by auto
    then show ?thesis
      by (simp add: r lookup_processRows_other calc_eq)
  qed
qed

lemma rowsHeightLookup_hydrateRowsMeta:
  "rowsHeightLookup (hydrateRowsMeta e s) =
     rowsHeightLookup (processRows e (hydratedRows e) (s\<lparr>hasRowWithAutoHeight := False\<rparr>))"
  by (simp add: hydrateRowsMeta_eq Let_def)




lemmas run_defs = hydrateRowsMeta_def reduceStep_def calculateRowProcessedSizes_def
  chooseBaseRowHeight_def buildInitialHeights_def setBaseCenter_def newRowHeightEntry_def
  heightParams_def applyPipeProcessors_def rowTotalHeight_def sizeStep_def forEachPinned_def
  isUpperAZ_def rowsMetaStateInitializer_def pageProcessedSizes_def Let_def

lemmas example_defs = plainEnv_def autoEnv_def spacedEnv_def exampleRow1_def exampleRow2_def




subsection \<open>Resized rows\<close>

lemma applyPipeProcessors_baseCenter:
  assumes "\<forall>p\<in>set ps. \<forall>szs row. map_of (p szs row) ''baseCenter'' = map_of szs ''baseCenter''"
  shows "map_of (applyPipeProcessors ps szs row) ''baseCenter'' = map_of szs ''baseCenter''"
  using assms
proof (induction ps arbitrary: szs)
  case Nil
  then show ?case by (simp add: applyPipeProcessors_def)
next
  case (Cons p ps)
  have "map_of (applyPipeProcessors ps (p szs row) row) ''baseCenter'' =
      map_of (p szs row) ''baseCenter''"
    using Cons.IH [of "p szs row"] Cons.prems by simp
  then show ?case
    using Cons.prems by (simp add: applyPipeProcessors_def)
qed

lemma map_of_setBaseCenter:
  "map_of (setBaseCenter baseRowHeight szs) ''baseCenter'' = baseRowHeight"
  by (simp add: setBaseCenter_def AList.update_conv' AList.delete_conv' split: option.splits)

lemma map_of_buildInitialHeights:
  "map_of (buildInitialHeights e r cached baseRowHeight) ''baseCenter'' = baseRowHeight"
  by (simp add: buildInitialHeights_def Let_def AList.update_conv' map_of_setBaseCenter
      split: option.splits)

lemma entryAfter_resized:
  assumes "isResized en" and "processorsKeepBaseCenter e"
  shows "isResized (entryAfter e r (Some en)) \<and>
         map_of (sizes (entryAfter e r (Some en))) ''baseCenter'' =
           map_of (sizes en) ''baseCenter''"
proof -
  have choose: "chooseBaseRowHeight e r en False = (map_of (sizes en) ''baseCenter'', en, False)"
    using assms(1) by (simp add: chooseBaseRowHeight_def)
  have "map_of (applyPipeProcessors (rowHeightProcessors e)
            (buildInitialHeights e r (sizes en) (map_of (sizes en) ''baseCenter'')) r)
          ''baseCenter'' = map_of (sizes en) ''baseCenter''"
    using assms(2) applyPipeProcessors_baseCenter [of "rowHeightProcessors e"]
    by (simp add: processorsKeepBaseCenter_def map_of_buildInitialHeights)
  then show ?thesis
    using assms(1) by (simp add: entryAfter_def cachedOrNew_def choose)
qed

lemma resizedAt_calc:
  assumes "resizedAt rid h s" and "processorsKeepBaseCenter e"
  shows "resizedAt rid h (snd (calculateRowProcessedSizes e r s))"
proof (cases "rowId r = rid")
  case True
  obtain en where en: "rowsHeightLookup s rid = Some en" "isResized en"
      "map_of (sizes en) ''baseCenter'' = Some h"
    using assms(1) by (auto simp: resizedAt_def)
  show ?thesis
    using entryAfter_resized [OF en(2) assms(2), of r] en True
    by (simp add: resizedAt_def calc_eq)
next
  case False
  then show ?thesis
    using assms(1) by (simp add: resizedAt_def calc_eq)
qed

lemma resizedAt_processRows:
  "resizedAt rid h s \<Longrightarrow> processorsKeepBaseCenter e \<Longrightarrow> resizedAt rid h (processRows e rs s)"
  by (induction rs arbitrary: s) (simp_all add: resizedAt_calc)

lemma resizedAt_hydrateRowsMeta:
  assumes "resizedAt rid h s" and "processorsKeepBaseCenter e"
  shows "resizedAt rid h (hydrateRowsMeta e s)"
proof -
  have "resizedAt rid h (s\<lparr>hasRowWithAutoHeight := False\<rparr>)"
    using assms(1) by (simp add: resizedAt_def)
  then have "resizedAt rid h (processRows e (hydratedRows e) (s\<lparr>hasRowWithAutoHeight := False\<rparr>))"
    using assms(2) by (rule resizedAt_processRows)
  then show ?thesis
    by (simp add: resizedAt_def rowsHeightLookup_hydrateRowsMeta)
qed

lemma resizedAt_runs:
  "resizedAt rid h s \<Longrightarrow> \<forall>e\<in>set es. processorsKeepBaseCenter e \<Longrightarrow>
     resizedAt rid h (foldl (\<lambda>t e. hydrateRowsMeta e t) s es)"
  by (induction es arbitrary: s) (simp_all add: resizedAt_hydrateRowsMeta)

text \<open>
  C3, as the claim states it, fails: the sizes that the processors of \<open>rowHeight\<close>
  return replace the cached sizes, so that a processor that writes \<open>baseCenter\<close>
  overwrites the height of a resized row. Here row 1 is resized to 100 and the next run
  leaves 7.
\<close>

theorem setRowHeight_baseCenter_counterexample:
  "\<not> isl (setRowHeight plainEnv 1 100 cachedRefs) \<and>
   getRowHeight plainEnv (projr (setRowHeight plainEnv 1 100 cachedRefs)) 1 = Some 100 \<and>
   getRowHeight plainEnv
     (hydrateRowsMeta overridingEnv (projr (setRowHeight plainEnv 1 100 cachedRefs))) 1 = Some 7"
  by (simp add: setRowHeight_def getRowHeight_def cachedRefs_def overridingEnv_def
      run_defs example_defs)

text \<open>
  C3, amended. For a row id that the cache holds, \<open>setRowHeight(id, h)\<close> returns, and
  after it every run of \<open>hydrateRowsMeta\<close>, whatever the height callbacks of the run
  return, leaves the row resized with \<open>baseCenter\<close> equal to \<open>h\<close>, provided that the
  processors of \<open>rowHeight\<close> registered at the call and at each run leave
  \<open>baseCenter\<close> as it is.
\<close>

theorem setRowHeight_keeps_baseCenter:
  assumes "rowsHeightLookup s rid \<noteq> None"
    and "processorsKeepBaseCenter e"
    and "\<forall>e'\<in>set es. processorsKeepBaseCenter e'"
  shows "\<exists>s'. setRowHeight e rid h s = Inr s' \<and>
           getRowHeight e0 (foldl (\<lambda>t e'. hydrateRowsMeta e' t) s' es) rid = Some h \<and>
           (\<exists>en. rowsHeightLookup (foldl (\<lambda>t e'. hydrateRowsMeta e' t) s' es) rid = Some en \<and>
                 isResized en \<and> map_of (sizes en) ''baseCenter'' = Some h)"
proof -
  obtain en where en: "rowsHeightLookup s rid = Some en"
    using assms(1) by auto
  let ?s0 = "s\<lparr>rowsHeightLookup := (rowsHeightLookup s)(rid \<mapsto>
               en\<lparr>sizes := AList.update ''baseCenter'' h (sizes en),
                  isResized := True, needsFirstMeasurement := False\<rparr>)\<rparr>"
  have call: "setRowHeight e rid h s = Inr (hydrateRowsMeta e ?s0)"
    by (simp add: setRowHeight_def en)
  have "resizedAt rid h ?s0"
    by (simp add: resizedAt_def AList.update_conv')
  then have "resizedAt rid h (hydrateRowsMeta e ?s0)"
    using assms(2) by (rule resizedAt_hydrateRowsMeta)
  then have "resizedAt rid h (foldl (\<lambda>t e'. hydrateRowsMeta e' t) (hydrateRowsMeta e ?s0) es)"
    using assms(3) by (rule resizedAt_runs)
  then show ?thesis
    using call by (auto simp: resizedAt_def getRowHeight_def)
qed

theorem setRowHeight_keeps_baseCenter_witness:
  "rowsHeightLookup cachedRefs 2 \<noteq> None \<and>
   processorsKeepBaseCenter spacedEnv \<and>
   (\<exists>s'. setRowHeight spacedEnv 2 100 cachedRefs = Inr s' \<and>
      getRowHeight plainEnv (foldl (\<lambda>t e'. hydrateRowsMeta e' t) s' [autoEnv, spacedEnv]) 2 =
        Some 100)"
proof -
  have present: "rowsHeightLookup cachedRefs 2 \<noteq> None"
    by (simp add: cachedRefs_def run_defs example_defs)
  have plain: "processorsKeepBaseCenter autoEnv"
    by (simp add: processorsKeepBaseCenter_def example_defs)
  have spaced: "processorsKeepBaseCenter spacedEnv"
    by (simp add: processorsKeepBaseCenter_def example_defs AList.update_conv')
  have all: "\<forall>e'\<in>set [autoEnv, spacedEnv]. processorsKeepBaseCenter e'"
    using plain spaced by simp
  show ?thesis
    using setRowHeight_keeps_baseCenter [OF present spaced all, of 100 plainEnv] present spaced
    by blast
qed

subsection \<open>Running hydrateRowsMeta twice\<close>

lemma filter_update_other:
  "\<not> P k \<Longrightarrow> filter (\<lambda>(key, val). P key) (AList.update k v xs) = filter (\<lambda>(key, val). P key) xs"
  by (induction xs) auto

lemma filter_update_same:
  "P k \<Longrightarrow> filter (\<lambda>(key, val). P key) (AList.update k v xs) =
     AList.update k v (filter (\<lambda>(key, val). P key) xs)"
  by (induction xs) auto

lemma filter_delete:
  "filter (\<lambda>(key, val). P key) (AList.delete k xs) =
     AList.delete k (filter (\<lambda>(key, val). P key) xs)"
  by (induction xs) auto

lemma map_of_filter_key:
  "P k \<Longrightarrow> map_of (filter (\<lambda>(key, val). P key) xs) k = map_of xs k"
  by (induction xs) auto

lemma isBaseKey_names:
  "isBaseKey ''baseCenter''" "\<not> isBaseKey ''spacingTop''" "\<not> isBaseKey ''spacingBottom''"
  by (simp_all add: isUpperAZ_def)

lemmas filter_base_baseCenter =
  filter_update_same [of isBaseKey "''baseCenter''", OF isBaseKey_names(1)]

lemmas filter_base_spacingTop =
  filter_update_other [of isBaseKey "''spacingTop''", OF isBaseKey_names(2)]

lemmas filter_base_spacingBottom =
  filter_update_other [of isBaseKey "''spacingBottom''", OF isBaseKey_names(3)]

lemmas map_of_base_baseCenter =
  map_of_filter_key [of isBaseKey "''baseCenter''", OF isBaseKey_names(1)]

lemma filter_setBaseCenter:
  "filter (\<lambda>(key, val). isBaseKey key) (setBaseCenter b szs) =
     setBaseCenter b (filter (\<lambda>(key, val). isBaseKey key) szs)"
  by (simp add: setBaseCenter_def filter_base_baseCenter filter_delete split: option.splits)

lemma setBaseCenter_idem: "setBaseCenter b (setBaseCenter b szs) = setBaseCenter b szs"
  by (simp add: setBaseCenter_def AList.delete_idem split: option.splits)

lemma filter_buildInitialHeights:
  "filter (\<lambda>(key, val). isBaseKey key) (buildInitialHeights e r cached b) =
     setBaseCenter b (filter (\<lambda>(key, val). isBaseKey key) cached)"
  by (simp add: buildInitialHeights_def Let_def filter_base_spacingTop filter_base_spacingBottom
      filter_setBaseCenter split: option.splits)

lemma buildInitialHeights_cong:
  "filter (\<lambda>(key, val). isBaseKey key) cached' = filter (\<lambda>(key, val). isBaseKey key) cached \<Longrightarrow>
     buildInitialHeights e r cached' b = buildInitialHeights e r cached b"
  by (simp add: buildInitialHeights_def Let_def)

lemma applyPipeProcessors_baseSizes:
  assumes "\<forall>p\<in>set ps. \<forall>szs row.
      filter (\<lambda>(key, val). isBaseKey key) (p szs row) = filter (\<lambda>(key, val). isBaseKey key) szs"
  shows "filter (\<lambda>(key, val). isBaseKey key) (applyPipeProcessors ps szs row) =
           filter (\<lambda>(key, val). isBaseKey key) szs"
  using assms
proof (induction ps arbitrary: szs)
  case Nil
  then show ?case by (simp add: applyPipeProcessors_def)
next
  case (Cons p ps)
  have "filter (\<lambda>(key, val). isBaseKey key) (applyPipeProcessors ps (p szs row) row) =
      filter (\<lambda>(key, val). isBaseKey key) (p szs row)"
    using Cons.IH [of "p szs row"] Cons.prems by simp
  then show ?case
    using Cons.prems by (simp add: applyPipeProcessors_def)
qed

lemma choose_stable:
  assumes "chooseBaseRowHeight e r en0 False = (b, en1, a)"
    and "map_of out ''baseCenter'' = b"
  shows "chooseBaseRowHeight e r (en1\<lparr>sizes := out\<rparr>) False = (b, en1\<lparr>sizes := out\<rparr>, a)"
  using assms unfolding chooseBaseRowHeight_def
  by (auto simp: Let_def split: if_splits option.splits GridRowHeightReturnValue.splits)

lemma entryAfter_stable:
  assumes "processorsKeepBaseSizes e"
  shows "entryAfter e r (Some (entryAfter e r cached)) = entryAfter e r cached"
proof -
  let ?en0 = "cachedOrNew e cached"
  obtain b en1 a where choose: "chooseBaseRowHeight e r ?en0 False = (b, en1, a)"
    by (cases "chooseBaseRowHeight e r ?en0 False") auto
  let ?init = "buildInitialHeights e r (sizes ?en0) b"
  let ?out = "applyPipeProcessors (rowHeightProcessors e) ?init r"
  have first: "entryAfter e r cached = en1\<lparr>sizes := ?out\<rparr>"
    by (simp add: entryAfter_def choose)
  have base_out: "filter (\<lambda>(key, val). isBaseKey key) ?out =
      filter (\<lambda>(key, val). isBaseKey key) ?init"
    using assms applyPipeProcessors_baseSizes [of "rowHeightProcessors e"]
    by (simp add: processorsKeepBaseSizes_def)
  have "map_of ?out ''baseCenter'' = map_of (filter (\<lambda>(key, val). isBaseKey key) ?out) ''baseCenter''"
    by (simp only: map_of_base_baseCenter)
  also have "\<dots> = map_of ?init ''baseCenter''"
    by (simp only: base_out map_of_base_baseCenter)
  also have "\<dots> = b"
    by (rule map_of_buildInitialHeights)
  finally have bc: "map_of ?out ''baseCenter'' = b" .
  have choose2: "chooseBaseRowHeight e r (en1\<lparr>sizes := ?out\<rparr>) False = (b, en1\<lparr>sizes := ?out\<rparr>, a)"
    using choose bc by (rule choose_stable)
  have "filter (\<lambda>(key, val). isBaseKey key) ?out =
      setBaseCenter b (filter (\<lambda>(key, val). isBaseKey key) (sizes ?en0))"
    by (simp add: base_out filter_buildInitialHeights)
  then have "buildInitialHeights e r ?out b =
      buildInitialHeights e r (setBaseCenter b (filter (\<lambda>(key, val). isBaseKey key) (sizes ?en0))) b"
    by (intro buildInitialHeights_cong) (simp add: filter_setBaseCenter)
  also have "\<dots> = ?init"
    by (simp add: buildInitialHeights_def Let_def filter_setBaseCenter setBaseCenter_idem
        split: option.splits)
  finally have init2: "buildInitialHeights e r ?out b = ?init" .
  have some: "cachedOrNew e (Some (en1\<lparr>sizes := ?out\<rparr>)) = en1\<lparr>sizes := ?out\<rparr>"
    by (simp add: cachedOrNew_def)
  have "entryAfter e r (Some (en1\<lparr>sizes := ?out\<rparr>)) = en1\<lparr>sizes := ?out\<rparr>"
    unfolding entryAfter_def some choose2 by (simp add: init2)
  then show ?thesis
    by (simp only: first)
qed

lemma debouncedHydrateCalls_processRows:
  "debouncedHydrateCalls (processRows e rs s) = debouncedHydrateCalls s"
  by (induction rs arbitrary: s) (simp_all add: calc_eq)

lemma debouncedHydrateCalls_hydrateRowsMeta:
  "debouncedHydrateCalls (hydrateRowsMeta e s) = debouncedHydrateCalls s"
  by (simp add: hydrateRowsMeta_eq Let_def debouncedHydrateCalls_processRows)

lemma rowsMeta_hydrateRowsMeta:
  "rowsMeta (hydrateRowsMeta e s) =
     \<lparr>currentPageTotalHeight = sum_list (map rowTotalHeight (pageProcessedSizes e s)),
      positions = prefixSums 0 (map rowTotalHeight (pageProcessedSizes e s))\<rparr>"
  by (simp add: hydrateRowsMeta_eq Let_def)

lemma pageProcessedSizes_distinct:
  assumes "distinct (map rowId (currentPageRows e))"
  shows "pageProcessedSizes e s =
           map (\<lambda>r. sizes (entryAfter e r (rowsHeightLookup s (rowId r)))) (currentPageRows e)"
  using processedSizesInRun_distinct [OF assms, of e "s\<lparr>hasRowWithAutoHeight := False\<rparr>"]
  by (simp add: pageProcessedSizes_def)

lemma lookup_hydrateRowsMeta_distinct:
  assumes "distinct (map rowId (hydratedRows e))" and "r \<in> set (hydratedRows e)"
  shows "rowsHeightLookup (hydrateRowsMeta e s) (rowId r) =
           Some (entryAfter e r (rowsHeightLookup s (rowId r)))"
  using lookup_processRows_distinct [OF assms, of e "s\<lparr>hasRowWithAutoHeight := False\<rparr>"]
  by (simp add: rowsHeightLookup_hydrateRowsMeta)

lemma lookup_hydrateRowsMeta_other:
  "k \<notin> rowId ` set (hydratedRows e) \<Longrightarrow>
     rowsHeightLookup (hydrateRowsMeta e s) k = rowsHeightLookup s k"
  by (simp add: rowsHeightLookup_hydrateRowsMeta lookup_processRows_other)

text \<open>
  C8, as the claim states it, fails: a run copies the cached \<open>base*\<close> components into
  the sizes it hands to the processors of \<open>rowHeight\<close> and caches what they return, so
  that a processor whose result depends on a \<open>base*\<close> component sees its own output
  at the next run. Here two runs with nothing changed in between give different
  positions and totals.
\<close>

theorem hydrateRowsMeta_twice_counterexample:
  "rowsMeta (hydrateRowsMeta growingEnv rowsMetaStateInitializer) =
     \<lparr>currentPageTotalHeight = 120, positions = [0, 60]\<rparr> \<and>
   rowsMeta (hydrateRowsMeta growingEnv (hydrateRowsMeta growingEnv rowsMetaStateInitializer)) =
     \<lparr>currentPageTotalHeight = 240, positions = [0, 120]\<rparr>"
  by (simp add: growingEnv_def run_defs example_defs)

text \<open>
  C8, amended. When the rows that a run processes (the rows of the page and the pinned
  rows) have distinct ids and the processors of \<open>rowHeight\<close> leave the \<open>base*\<close>
  components as they are, a second run of \<open>hydrateRowsMeta\<close> with nothing changed
  after the first one gives the same \<open>positions\<close> and \<open>currentPageTotalHeight\<close>; it
  leaves all the refs as the first run has left them.
\<close>

theorem hydrateRowsMeta_twice:
  assumes "distinct (map rowId (hydratedRows e))" and "processorsKeepBaseSizes e"
  shows "positions (rowsMeta (hydrateRowsMeta e (hydrateRowsMeta e s))) =
           positions (rowsMeta (hydrateRowsMeta e s)) \<and>
         currentPageTotalHeight (rowsMeta (hydrateRowsMeta e (hydrateRowsMeta e s))) =
           currentPageTotalHeight (rowsMeta (hydrateRowsMeta e s)) \<and>
         hydrateRowsMeta e (hydrateRowsMeta e s) = hydrateRowsMeta e s"
proof -
  let ?s' = "hydrateRowsMeta e s"
  have dpage: "distinct (map rowId (currentPageRows e))"
    using assms(1) by (simp add: hydratedRows_def)
  have cached: "\<forall>r\<in>set (hydratedRows e).
      rowsHeightLookup ?s' (rowId r) = Some (entryAfter e r (rowsHeightLookup s (rowId r)))"
    using lookup_hydrateRowsMeta_distinct [OF assms(1)] by blast
  have stable: "\<forall>r\<in>set (hydratedRows e).
      entryAfter e r (rowsHeightLookup ?s' (rowId r)) = entryAfter e r (rowsHeightLookup s (rowId r))"
    using cached entryAfter_stable [OF assms(2)] by simp
  have "map (\<lambda>r. sizes (entryAfter e r (rowsHeightLookup ?s' (rowId r)))) (currentPageRows e) =
      map (\<lambda>r. sizes (entryAfter e r (rowsHeightLookup s (rowId r)))) (currentPageRows e)"
    using stable by (intro map_cong) (simp_all add: hydratedRows_def)
  then have pps: "pageProcessedSizes e ?s' = pageProcessedSizes e s"
    by (simp add: pageProcessedSizes_distinct [OF dpage])
  have meta: "rowsMeta (hydrateRowsMeta e ?s') = rowsMeta ?s'"
    by (simp add: rowsMeta_hydrateRowsMeta pps)
  have lookup: "rowsHeightLookup (hydrateRowsMeta e ?s') = rowsHeightLookup ?s'"
  proof
    fix k
    show "rowsHeightLookup (hydrateRowsMeta e ?s') k = rowsHeightLookup ?s' k"
    proof (cases "k \<in> rowId ` set (hydratedRows e)")
      case True
      then obtain r where r: "r \<in> set (hydratedRows e)" "k = rowId r"
        by auto
      have "rowsHeightLookup (hydrateRowsMeta e ?s') (rowId r) =
          Some (entryAfter e r (rowsHeightLookup ?s' (rowId r)))"
        using lookup_hydrateRowsMeta_distinct [OF assms(1) r(1)] by simp
      then show ?thesis
        using cached stable r by simp
    next
      case False
      then show ?thesis
        by (rule lookup_hydrateRowsMeta_other)
    qed
  qed
  have auto_same: "(\<exists>r\<in>set (hydratedRows e). rowIsAuto e r (rowsHeightLookup ?s' (rowId r))) =
      (\<exists>r\<in>set (hydratedRows e). rowIsAuto e r (rowsHeightLookup s (rowId r)))"
    using cached by (simp add: rowIsAuto_entryAfter)
  have flag: "hasRowWithAutoHeight (hydrateRowsMeta e ?s') = hasRowWithAutoHeight ?s'"
    by (simp add: hasRowWithAutoHeight_hydrateRowsMeta auto_same)
  have mark: "lastMeasuredRowIndex (hydrateRowsMeta e ?s') = lastMeasuredRowIndex ?s'"
    by (simp add: lastMeasuredRowIndex_hydrateRowsMeta [of e ?s'] auto_same
        lastMeasuredRowIndex_hydrateRowsMeta [of e s])
  have calls: "debouncedHydrateCalls (hydrateRowsMeta e ?s') = debouncedHydrateCalls ?s'"
    by (rule debouncedHydrateCalls_hydrateRowsMeta)
  have "hydrateRowsMeta e ?s' = ?s'"
    using lookup mark flag meta calls by (intro RowsMetaRefs.equality) simp_all
  then show ?thesis
    by simp
qed

theorem hydrateRowsMeta_twice_witness:
  "distinct (map rowId (hydratedRows spacedEnv)) \<and> processorsKeepBaseSizes spacedEnv \<and>
   positions (rowsMeta (hydrateRowsMeta spacedEnv (hydrateRowsMeta spacedEnv cachedRefs))) =
     [0, 52] \<and>
   currentPageTotalHeight
     (rowsMeta (hydrateRowsMeta spacedEnv (hydrateRowsMeta spacedEnv cachedRefs))) = 126"
proof -
  have dist: "distinct (map rowId (hydratedRows spacedEnv))"
    by (simp add: hydratedRows_def pinnedTopRows_def pinnedBottomRows_def example_defs)
  have detail: "\<not> isBaseKey ''detail''"
    by simp
  have keep: "processorsKeepBaseSizes spacedEnv"
    by (simp add: processorsKeepBaseSizes_def example_defs
        filter_update_other [of isBaseKey "''detail''", OF detail])
  have first: "rowsMeta (hydrateRowsMeta spacedEnv cachedRefs) =
      \<lparr>currentPageTotalHeight = 126, positions = [0, 52]\<rparr>"
    by (simp add: cachedRefs_def run_defs example_defs)
  show ?thesis
    using hydrateRowsMeta_twice [OF dist keep, of cachedRefs] dist keep first
    by simp
qed

text \<open>
  The distinct ids are needed: when a run meets an id twice, the second row finds the
  flags that the first one has written, and the next run starts from the flags of the
  second.
\<close>

lemma duplicate_ids_runs_differ:
  "processorsKeepBaseSizes duplicateIdEnv \<and>
   rowsMeta (hydrateRowsMeta duplicateIdEnv rowsMetaStateInitializer) =
     \<lparr>currentPageTotalHeight = 80, positions = [0, 50]\<rparr> \<and>
   rowsMeta (hydrateRowsMeta duplicateIdEnv
              (hydrateRowsMeta duplicateIdEnv rowsMetaStateInitializer)) =
     \<lparr>currentPageTotalHeight = 60, positions = [0, 30]\<rparr>"
  by (simp add: processorsKeepBaseSizes_def duplicateIdEnv_def run_defs example_defs)

end
